theory Spec2Isabelle
  imports Main "HOL-Library.Multiset" "HOL-Library.Product_Lexorder"
begin

section \<open>Gattrose-NG host controller: the device protocol engine\<close>

text \<open>
  A shallow embedding of the protocol core of \<^verbatim>\<open>flipper_bw16_deauther/gattrose_ng.c\<close>:
  the byte framer (\<^verbatim>\<open>uart_rx_thread\<close>), the token scanner (\<^verbatim>\<open>token_next\<close>), the
  decoders of the binary dialect (\<^verbatim>\<open>process_rx_message\<close> and the \<^verbatim>\<open>parse_*_message\<close>
  functions) and of the legacy dialect (\<^verbatim>\<open>process_rx_line\<close>), the ranking pass
  (\<^verbatim>\<open>sort_networks\<close>), firmware detection (\<^verbatim>\<open>detect_firmware\<close>) and the deauth
  command (\<^verbatim>\<open>do_deauth\<close>).

  Conventions of the embedding.
  \<^item> C \<^verbatim>\<open>int\<close> values are HOL integers; the only place where a value could leave the
    32-bit range is \<^verbatim>\<open>atoi\<close>, which saturates as the C library's \<^verbatim>\<open>strtol\<close> does.
  \<^item> A character array that the code only handles as a NUL-terminated string, and whose
    last byte is never written after the structure was zeroed, is a \<open>string\<close>: the bytes
    before the terminator. \<^verbatim>\<open>strncpy (dst, src, n)\<close> into such a field pads with NUL up
    to \<open>n\<close> bytes, so the field afterwards holds \<open>take n src\<close>.
  \<^item> The two buffers that are written byte by byte through a computed position, the line
    buffer \<^verbatim>\<open>rx_line\<close> and the credential log \<^verbatim>\<open>credentials\<close>, are raw byte lists of
    their declared size; a write or read outside them is a \<open>fault\<close>.
  \<^item> Arrays of structures are lists of their declared length together with the count
    field of the source; an access outside the list is a \<open>fault\<close>.
  \<^item> Logging (\<^verbatim>\<open>FURI_LOG_*\<close>, \<^verbatim>\<open>app_log\<close>, \<^verbatim>\<open>console_append\<close>), notifications, the
    GUI and the byte counters touch only fields that are not part of this model and are
    left out.
\<close>

subsection \<open>Faults\<close>

datatype fault = RxLineOverrun | CredentialsOverrun | IndexOutOfRange

definition arr_get :: "'a list \<Rightarrow> int \<Rightarrow> fault + 'a" where
  "arr_get xs i = (if 0 \<le> i \<and> i < int (length xs) then Inr (xs ! nat i) else Inl IndexOutOfRange)"

definition arr_set :: "'a list \<Rightarrow> int \<Rightarrow> 'a \<Rightarrow> fault + 'a list" where
  "arr_set xs i v = (if 0 \<le> i \<and> i < int (length xs) then Inr (xs[nat i := v]) else Inl IndexOutOfRange)"

subsection \<open>Constants\<close>

abbreviation NUL :: char where "NUL \<equiv> CHR 0x00"
abbreviation PROTO_STX :: char where "PROTO_STX \<equiv> CHR 0x02"
abbreviation PROTO_ETX :: char where "PROTO_ETX \<equiv> CHR 0x03"
abbreviation PROTO_SEP :: char where "PROTO_SEP \<equiv> CHR 0x1D"

abbreviation MAX_NETWORKS :: int where "MAX_NETWORKS \<equiv> 64"
abbreviation MAX_CLIENTS :: int where "MAX_CLIENTS \<equiv> 128"
abbreviation MAX_CLIENTS_PER_AP :: int where "MAX_CLIENTS_PER_AP \<equiv> 16"
abbreviation MAX_SSID_LEN :: nat where "MAX_SSID_LEN \<equiv> 33"
abbreviation MAX_BSSID_LEN :: nat where "MAX_BSSID_LEN \<equiv> 18"
abbreviation MAX_BLE_DEVICES :: int where "MAX_BLE_DEVICES \<equiv> 32"

text \<open>\<^verbatim>\<open>sizeof (app->rx_line)\<close> and \<^verbatim>\<open>sizeof (app->credentials)\<close>.\<close>

abbreviation RX_LINE_SIZE :: nat where "RX_LINE_SIZE \<equiv> 256"
abbreviation CREDENTIALS_SIZE :: nat where "CREDENTIALS_SIZE \<equiv> 512"

subsection \<open>C strings and the library routines the decoders call\<close>

text \<open>The string that starts at the beginning of a byte buffer: the bytes before the first NUL.\<close>

definition cstr :: "char list \<Rightarrow> string" where
  "cstr buf = takeWhile (\<lambda>c. c \<noteq> NUL) buf"

text \<open>\<^verbatim>\<open>strncmp (s, lit, n) == 0\<close> on NUL-free contents.\<close>

definition strncmp_eq :: "string \<Rightarrow> string \<Rightarrow> nat \<Rightarrow> bool" where
  "strncmp_eq s lit n = (take n s = take n lit)"

text \<open>\<^verbatim>\<open>strstr\<close>: the suffix that starts at the first occurrence, or \<open>None\<close> for \<^verbatim>\<open>NULL\<close>.\<close>

fun strstr :: "string \<Rightarrow> string \<Rightarrow> string option" where
  "strstr [] needle = (if needle = [] then Some [] else None)"
| "strstr (c # cs) needle =
     (if take (length needle) (c # cs) = needle then Some (c # cs) else strstr cs needle)"

text \<open>\<^verbatim>\<open>strchr\<close> for a character other than NUL.\<close>

definition strchr :: "string \<Rightarrow> char \<Rightarrow> string option" where
  "strchr s ch = (case dropWhile (\<lambda>c. c \<noteq> ch) s of [] \<Rightarrow> None | r # rs \<Rightarrow> Some (r # rs))"

definition is_space :: "char \<Rightarrow> bool" where
  "is_space c = (c = CHR 0x20 \<or> c = CHR 0x09 \<or> c = CHR 0x0A \<or> c = CHR 0x0B \<or> c = CHR 0x0C \<or> c = CHR 0x0D)"

definition is_digit :: "char \<Rightarrow> bool" where
  "is_digit c = ((48::nat) \<le> of_char c \<and> of_char c \<le> (57::nat))"

definition digit_val :: "char \<Rightarrow> int" where
  "digit_val c = int (of_char c) - 48"

fun atoi_digits :: "int \<Rightarrow> string \<Rightarrow> int" where
  "atoi_digits acc [] = acc"
| "atoi_digits acc (c # cs) = (if is_digit c then atoi_digits (acc * 10 + digit_val c) cs else acc)"

definition INT_MAX :: int where "INT_MAX = 2147483647"
definition INT_MIN :: int where "INT_MIN = - 2147483648"

definition clamp_int :: "int \<Rightarrow> int" where
  "clamp_int v = max INT_MIN (min INT_MAX v)"

text \<open>
  \<^verbatim>\<open>atoi\<close>: leading white space, an optional sign, then decimal digits up to the first
  other character; no digits give 0. A value outside the \<^verbatim>\<open>int\<close> range saturates.
\<close>

definition atoi :: "string \<Rightarrow> int" where
  "atoi s =
     (case dropWhile is_space s of
        [] \<Rightarrow> 0
      | c # cs \<Rightarrow>
          if c = CHR ''-'' then clamp_int (- atoi_digits 0 cs)
          else if c = CHR ''+'' then clamp_int (atoi_digits 0 cs)
          else clamp_int (atoi_digits 0 (c # cs)))"

text \<open>\<^verbatim>\<open>snprintf\<close> of \<^verbatim>\<open>%d\<close>.\<close>

definition digit_char :: "nat \<Rightarrow> char" where
  "digit_char d = ''0123456789'' ! d"

fun nat_digits :: "nat \<Rightarrow> string" where
  "nat_digits n = (if n < 10 then [digit_char n] else nat_digits (n div 10) @ [digit_char (n mod 10)])"

declare nat_digits.simps [simp del]

definition dec_string :: "int \<Rightarrow> string" where
  "dec_string i = (if i < 0 then CHR ''-'' # nat_digits (nat (- i)) else nat_digits (nat i))"

subsection \<open>Token scanner\<close>

text \<open>
  \<^verbatim>\<open>TokenState\<close> is the buffer and a cursor. Every delimiter the scanner has passed was
  overwritten with NUL and the cursor never moves back, so the state that matters is the
  unread text \<^verbatim>\<open>str + pos\<close>, and that is what the model keeps. \<^verbatim>\<open>token_next\<close> returns
  \<open>None\<close> for \<^verbatim>\<open>NULL\<close> (cursor at the terminator), otherwise the token (the text up to
  the next delimiter, which it overwrites) and the new state.
\<close>

type_synonym TokenState = string

definition token_init :: "string \<Rightarrow> TokenState" where
  "token_init str = str"

definition token_next :: "TokenState \<Rightarrow> char \<Rightarrow> (string \<times> TokenState) option" where
  "token_next state delim =
     (if state = [] then None
      else Some (takeWhile (\<lambda>c. c \<noteq> delim) state, drop 1 (dropWhile (\<lambda>c. c \<noteq> delim) state)))"

subsection \<open>Data types\<close>

record Client =
  mac :: string
  cl_rssi :: int
  ap_index :: int

record Network =
  net_id :: int
  ssid :: string
  bssid :: string
  channel :: int
  net_rssi :: int
  security :: int
  is_5ghz :: bool
  deauth_active :: bool
  net_client_count :: int
  client_indices :: "int list"
  security_str :: string
  has_pmf :: bool
  hidden :: bool

record BleDevice =
  address :: string
  name :: string
  ble_rssi :: int

datatype FirmwareType =
  FirmwareUnknown | FirmwareGattrose | FirmwareEvilBW16 | FirmwarePingequa
  | FirmwareMarauder | FirmwareGeneric

record FirmwareCapabilities =
  wifi_scan :: bool
  wifi_scan_5ghz :: bool
  client_detection :: bool
  targeted_deauth :: bool
  broadcast_deauth :: bool
  beacon_spam :: bool
  evil_twin :: bool
  ble_scan :: bool
  ble_spam :: bool
  channel_hop :: bool
  monitor_mode :: bool
  eapol_capture :: bool

definition mk_caps ::
  "bool \<Rightarrow> bool \<Rightarrow> bool \<Rightarrow> bool \<Rightarrow> bool \<Rightarrow> bool \<Rightarrow> bool \<Rightarrow> bool \<Rightarrow> bool \<Rightarrow> bool \<Rightarrow> bool \<Rightarrow> bool
   \<Rightarrow> FirmwareCapabilities" where
  "mk_caps a b c d e f g h i j k l =
     \<lparr>wifi_scan = a, wifi_scan_5ghz = b, client_detection = c, targeted_deauth = d,
      broadcast_deauth = e, beacon_spam = f, evil_twin = g, ble_scan = h, ble_spam = i,
      channel_hop = j, monitor_mode = k, eapol_capture = l\<rparr>"

text \<open>
  The table \<^verbatim>\<open>firmware_caps[]\<close>, indexed by the firmware type. Every value of the
  enumeration is below the table's size, so the \<^verbatim>\<open>else\<close> branch of the lookup in
  \<^verbatim>\<open>detect_firmware\<close> is never taken.
\<close>

fun firmware_caps :: "FirmwareType \<Rightarrow> FirmwareCapabilities" where
  "firmware_caps FirmwareUnknown =
     mk_caps True False False False True False False False False False False False"
| "firmware_caps FirmwareGattrose =
     mk_caps True True True True True True True True True True True True"
| "firmware_caps FirmwareEvilBW16 =
     mk_caps True True False False True True True False False True False True"
| "firmware_caps FirmwarePingequa =
     mk_caps True False False False True False False False False False False False"
| "firmware_caps FirmwareMarauder =
     mk_caps True False False False True True False True True False False False"
| "firmware_caps FirmwareGeneric =
     mk_caps True False False False False False False False False False False False"

record App =
  serial_open :: bool
  uart_running :: bool
  connected :: bool
  tx :: "char list"
  networks :: "Network list"
  network_count :: int
  clients :: "Client list"
  client_count :: int
  selected_network :: int
  ble_devices :: "BleDevice list"
  ble_count :: int
  monitor_active :: bool
  deauth_reason :: int
  portal_type :: int
  custom_mac :: string
  credentials :: "char list"
  scan_finished :: bool
  scanning :: bool
  rx_line :: "char list"
  rx_pos :: nat
  firmware_type :: FirmwareType
  caps :: FirmwareCapabilities
  firmware_version :: string
  firmware_response :: string
  detection_done :: bool
  got_pong :: bool
  got_info :: bool
  got_help :: bool
  device_channel :: int
  device_deauth_count :: int
  device_beacon_active :: bool
  device_ap_active :: bool
  device_ble_count :: int

text \<open>\<^verbatim>\<open>memset (net, 0, sizeof (Network))\<close> followed by the loop that sets every slot of
  \<^verbatim>\<open>client_indices\<close> to \<open>-1\<close>.\<close>

definition zero_Network :: Network where
  "zero_Network =
     \<lparr>net_id = 0, ssid = [], bssid = [], channel = 0, net_rssi = 0, security = 0,
      is_5ghz = False, deauth_active = False, net_client_count = 0,
      client_indices = replicate 16 0, security_str = [], has_pmf = False, hidden = False\<rparr>"

definition fresh_Network :: Network where
  "fresh_Network = zero_Network\<lparr>client_indices := replicate 16 (- 1)\<rparr>"

definition zero_Client :: Client where
  "zero_Client = \<lparr>mac = [], cl_rssi = 0, ap_index = 0\<rparr>"

definition zero_BleDevice :: BleDevice where
  "zero_BleDevice = \<lparr>address = [], name = [], ble_rssi = 0\<rparr>"

text \<open>The separator byte of a frame body is rewritten to \<^verbatim>\<open>|\<close> before scanning.\<close>

definition sep_to_pipe :: "string \<Rightarrow> string" where
  "sep_to_pipe buffer = map (\<lambda>c. if c = PROTO_SEP then CHR ''|'' else c) buffer"

text \<open>The legacy decoders rewrite every colon to \<^verbatim>\<open>|\<close>.\<close>

definition colon_to_pipe :: "string \<Rightarrow> string" where
  "colon_to_pipe buffer = map (\<lambda>c. if c = CHR '':'' then CHR ''|'' else c) buffer"

subsection \<open>Binary dialect: network entry\<close>

text \<open>
  The field scan of \<^verbatim>\<open>parse_network_message\<close>, on the local copy of the body. The source
  writes each field into the slot \<^verbatim>\<open>networks[network_count]\<close> as it goes and returns
  early when one of the first five tokens is missing; the result is the slot's content at
  the return and whether the end of the function (the increment of the count) is reached.
\<close>

definition parse_network_fields :: "string \<Rightarrow> Network \<times> bool" where
  "parse_network_fields buffer =
    (let net = fresh_Network in
     case token_next (token_init buffer) (CHR ''|'') of
       None \<Rightarrow> (net, False)
     | Some (token, ts) \<Rightarrow>
    (let net = net\<lparr>net_id := atoi token\<rparr> in
     case token_next ts (CHR ''|'') of
       None \<Rightarrow> (net, False)
     | Some (token, ts) \<Rightarrow>
    (let net = net\<lparr>ssid := take (MAX_SSID_LEN - 1) token\<rparr> in
     case token_next ts (CHR ''|'') of
       None \<Rightarrow> (net, False)
     | Some (token, ts) \<Rightarrow>
    (let net = net\<lparr>bssid := take (MAX_BSSID_LEN - 1) token\<rparr> in
     case token_next ts (CHR ''|'') of
       None \<Rightarrow> (net, False)
     | Some (token, ts) \<Rightarrow>
    (let net = net\<lparr>channel := atoi token\<rparr> in
     case token_next ts (CHR ''|'') of
       None \<Rightarrow> (net, False)
     | Some (token, ts) \<Rightarrow>
    (let net = net\<lparr>net_rssi := atoi token\<rparr>;
         r6 = token_next ts (CHR ''|'');
         net = (case r6 of None \<Rightarrow> net | Some (token, _) \<Rightarrow> net\<lparr>is_5ghz := (atoi token = 5)\<rparr>);
         ts = (case r6 of None \<Rightarrow> ts | Some (_, ts') \<Rightarrow> ts');
         r7 = token_next ts (CHR ''|'');
         net = (case r7 of None \<Rightarrow> net | Some (token, _) \<Rightarrow> net\<lparr>net_client_count := atoi token\<rparr>);
         ts = (case r7 of None \<Rightarrow> ts | Some (_, ts') \<Rightarrow> ts');
         r8 = token_next ts (CHR ''|'');
         net = (case r8 of None \<Rightarrow> net\<lparr>security_str := take 15 ''???''\<rparr>
                | Some (token, _) \<Rightarrow> net\<lparr>security_str := take 15 token\<rparr>);
         ts = (case r8 of None \<Rightarrow> ts | Some (_, ts') \<Rightarrow> ts');
         r9 = token_next ts (CHR ''|'');
         net = (case r9 of None \<Rightarrow> net | Some (token, _) \<Rightarrow> net\<lparr>has_pmf := (atoi token = 1)\<rparr>);
         ts = (case r9 of None \<Rightarrow> ts | Some (_, ts') \<Rightarrow> ts');
         r10 = token_next ts (CHR ''|'');
         net = (case r10 of None \<Rightarrow> net | Some (token, _) \<Rightarrow> net\<lparr>hidden := (atoi token = 1)\<rparr>)
     in (net, True)))))))"

definition parse_network_message :: "App \<Rightarrow> string \<Rightarrow> fault + App" where
  "parse_network_message app data =
    (if network_count app \<ge> MAX_NETWORKS then Inr app
     else
       let buffer = sep_to_pipe (take 127 data);
           (net, complete) = parse_network_fields buffer
       in case arr_set (networks app) (network_count app) net of
            Inl e \<Rightarrow> Inl e
          | Inr nets \<Rightarrow>
              Inr (app\<lparr>networks := nets,
                       network_count := (if complete then network_count app + 1 else network_count app)\<rparr>))"

subsection \<open>Binary dialect: client entry\<close>

text \<open>The loop that counts the leading non-negative entries of \<^verbatim>\<open>client_indices\<close>.\<close>

definition count_linked :: "int list \<Rightarrow> int" where
  "count_linked idxs = int (length (takeWhile (\<lambda>x. 0 \<le> x) (take (nat MAX_CLIENTS_PER_AP) idxs)))"

text \<open>The scan over \<^verbatim>\<open>clients[0 .. client_count - 1]\<close> that compares the stored MAC strings.\<close>

definition client_known :: "App \<Rightarrow> string \<Rightarrow> bool" where
  "client_known app client_mac =
     list_ex (\<lambda>c. mac c = client_mac) (take (nat (client_count app)) (clients app))"

definition parse_client_message :: "App \<Rightarrow> string \<Rightarrow> fault + App" where
  "parse_client_message app data =
    (if client_count app \<ge> MAX_CLIENTS then Inr app
     else
       let buffer = sep_to_pipe (take 63 data) in
       case token_next (token_init buffer) (CHR ''|'') of
         None \<Rightarrow> Inr app
       | Some (token, ts) \<Rightarrow>
      (let ap_idx = atoi token in
       case token_next ts (CHR ''|'') of
         None \<Rightarrow> Inr app
       | Some (client_mac, ts) \<Rightarrow>
      (let rssi = (case token_next ts (CHR ''|'') of None \<Rightarrow> - 80 | Some (token, _) \<Rightarrow> atoi token) in
       if client_known app client_mac then Inr app
       else if ap_idx < 0 \<or> ap_idx \<ge> network_count app then Inr app
       else
         case arr_set (clients app) (client_count app)
                \<lparr>mac = take (MAX_BSSID_LEN - 1) client_mac, cl_rssi = rssi, ap_index = ap_idx\<rparr> of
           Inl e \<Rightarrow> Inl e
         | Inr cls \<Rightarrow>
        (case arr_get (networks app) ap_idx of
           Inl e \<Rightarrow> Inl e
         | Inr net \<Rightarrow>
        (let actual_count = count_linked (client_indices net) in
         if actual_count < MAX_CLIENTS_PER_AP then
           case arr_set (client_indices net) actual_count (client_count app) of
             Inl e \<Rightarrow> Inl e
           | Inr idxs \<Rightarrow>
               let net' = net\<lparr>client_indices := idxs,
                             net_client_count :=
                               (if actual_count + 1 > net_client_count net then actual_count + 1
                                else net_client_count net)\<rparr>
               in Inr (app\<lparr>clients := cls,
                           networks := (networks app)[nat ap_idx := net'],
                           client_count := client_count app + 1\<rparr>)
         else Inr (app\<lparr>clients := cls, client_count := client_count app + 1\<rparr>))))))"

subsection \<open>Binary dialect: BLE device entry\<close>

definition parse_ble_message :: "App \<Rightarrow> string \<Rightarrow> fault + App" where
  "parse_ble_message app data =
    (if ble_count app \<ge> MAX_BLE_DEVICES then Inr app
     else
       let buffer = sep_to_pipe (take 127 data) in
       case token_next (token_init buffer) (CHR ''|'') of
         None \<Rightarrow>
           (case arr_set (ble_devices app) (ble_count app) zero_BleDevice of
              Inl e \<Rightarrow> Inl e | Inr devs \<Rightarrow> Inr (app\<lparr>ble_devices := devs\<rparr>))
       | Some (token, ts) \<Rightarrow>
          (let dev = zero_BleDevice\<lparr>address := take (MAX_BSSID_LEN - 1) token\<rparr>;
               r2 = token_next ts (CHR ''|'');
               dev = (case r2 of None \<Rightarrow> dev\<lparr>name := take 63 ''Unknown''\<rparr>
                      | Some (token, _) \<Rightarrow> dev\<lparr>name := take 63 token\<rparr>);
               ts = (case r2 of None \<Rightarrow> ts | Some (_, ts') \<Rightarrow> ts');
               dev = dev\<lparr>ble_rssi := (case token_next ts (CHR ''|'') of None \<Rightarrow> - 80
                                        | Some (token, _) \<Rightarrow> atoi token)\<rparr>
           in case arr_set (ble_devices app) (ble_count app) dev of
                Inl e \<Rightarrow> Inl e
              | Inr devs \<Rightarrow> Inr (app\<lparr>ble_devices := devs, ble_count := ble_count app + 1\<rparr>)))"

subsection \<open>Credential log\<close>

text \<open>
  The append that \<^verbatim>\<open>parse_credential_message\<close> and the \<^verbatim>\<open>EV:\<close> branch of
  \<^verbatim>\<open>process_rx_line\<close> both spell out, on the raw 512-byte array. \<^verbatim>\<open>strlen\<close> runs off
  the array when it holds no NUL. \<^verbatim>\<open>space\<close> is a \<^verbatim>\<open>size_t\<close> (32 bits on the target), so
  the subtraction wraps around instead of going negative.
\<close>

definition credentials_append :: "char list \<Rightarrow> string \<Rightarrow> fault + char list" where
  "credentials_append creds line =
    (if NUL \<notin> set creds then Inl CredentialsOverrun
     else
       let current_len = length (cstr creds);
           new_len = length line;
           space = nat ((int CREDENTIALS_SIZE - int current_len - 2) mod 2 ^ 32)
       in if new_len < space then
            (if current_len + new_len + 1 < length creds then
               Inr (take current_len creds @ line @ [CHR 0x0A, NUL]
                    @ drop (current_len + new_len + 2) creds)
             else Inl CredentialsOverrun)
          else Inr creds)"

definition parse_credential_message :: "App \<Rightarrow> string \<Rightarrow> fault + App" where
  "parse_credential_message app data =
    (let buffer = sep_to_pipe (take 255 data) in
     case credentials_append (credentials app) buffer of
       Inl e \<Rightarrow> Inl e
     | Inr creds \<Rightarrow> Inr (app\<lparr>credentials := creds\<rparr>))"

subsection \<open>Binary dialect: dispatch on the tag byte\<close>

text \<open>The loop of the stop confirmation over \<^verbatim>\<open>networks[0 .. network_count - 1]\<close>.\<close>

definition clear_deauth_flags :: "Network list \<Rightarrow> int \<Rightarrow> fault + Network list" where
  "clear_deauth_flags nets cnt =
    (if cnt \<le> int (length nets) then
       Inr (map (\<lambda>n. n\<lparr>deauth_active := False\<rparr>) (take (nat cnt) nets) @ drop (nat cnt) nets)
     else Inl IndexOutOfRange)"

text \<open>The \<^verbatim>\<open>else\<close> branch of the info decoder: the structured \<^verbatim>\<open>key:value\<close> body.\<close>

definition parse_info_fields :: "App \<Rightarrow> string \<Rightarrow> App" where
  "parse_info_fields app data =
    (let app = app\<lparr>firmware_response := take 127 data\<rparr>;
         app = (case strstr data ''V:'' of
                  None \<Rightarrow> app
                | Some p \<Rightarrow>
                    (case strchr p (CHR ''|'') of
                       None \<Rightarrow> app
                     | Some e \<Rightarrow>
                         let len = length p - length e - 2 in
                         if len < 31 then app\<lparr>firmware_version := take len (drop 2 p)\<rparr> else app));
         app = (case strstr data ''CH:'' of None \<Rightarrow> app
                | Some p \<Rightarrow> app\<lparr>device_channel := atoi (drop 3 p)\<rparr>);
         app = (case strstr data ''D:'' of None \<Rightarrow> app
                | Some p \<Rightarrow> app\<lparr>device_deauth_count := atoi (drop 2 p)\<rparr>);
         app = (case strstr data ''B:'' of None \<Rightarrow> app
                | Some p \<Rightarrow> app\<lparr>device_beacon_active := (atoi (drop 2 p) = 1)\<rparr>);
         app = (case strstr data ''W:'' of None \<Rightarrow> app
                | Some p \<Rightarrow> app\<lparr>device_ap_active := (atoi (drop 2 p) = 1)\<rparr>);
         app = (case strstr data ''BLE:'' of None \<Rightarrow> app
                | Some p \<Rightarrow> app\<lparr>device_ble_count := atoi (drop 4 p)\<rparr>)
     in app)"

text \<open>
  \<^verbatim>\<open>process_rx_message (app, msg, len)\<close>: \<open>msg\<close> is the line buffer, \<open>len\<close> the number of
  bytes the framer stored. The body is the C string that starts at \<^verbatim>\<open>msg[1]\<close>. The tags
  whose branch only logs or notifies leave the state as it is.
\<close>

definition process_rx_message :: "App \<Rightarrow> char list \<Rightarrow> nat \<Rightarrow> fault + App" where
  "process_rx_message app msg len =
    (if len < 1 then Inr app
     else
       case msg of
         [] \<Rightarrow> Inl IndexOutOfRange
       | resp_type # rest \<Rightarrow>
      (let data = (if len > 1 then cstr rest else []) in
       if resp_type = CHR ''r'' then
         (if strncmp_eq data ''LED'' 3 then Inr app
          else Inr (app\<lparr>firmware_type := FirmwareGattrose,
                        firmware_response := take 127 data,
                        firmware_version :=
                          (case strstr data '':'' of
                             None \<Rightarrow> firmware_version app
                           | Some ver \<Rightarrow> take 31 (drop 1 ver)),
                        detection_done := True\<rparr>))
       else if resp_type = CHR ''s'' then
         (if strncmp_eq data ''DONE:'' 5 then Inr (app\<lparr>scan_finished := True\<rparr>)
          else if data = ''SCANNING'' then Inr (app\<lparr>scanning := True\<rparr>)
          else Inr app)
       else if resp_type = CHR ''n'' then parse_network_message app data
       else if resp_type = CHR ''c'' then parse_client_message app data
       else if resp_type = CHR ''l'' then
         (if strncmp_eq data ''SCAN_DONE:'' 10 then Inr app
          else if data = ''BLE_SCANNING'' then Inr app
          else if data = ''BLE_SPAM_ON'' then Inr app
          else if data = ''BLE_STOP'' then Inr app
          else parse_ble_message app data)
       else if resp_type = CHR ''C'' then parse_credential_message app data
       else if resp_type = CHR ''i'' then
         (if (case data of [] \<Rightarrow> False | c # _ \<Rightarrow> is_digit c) \<and> length data < 5
          then Inr (app\<lparr>got_info := True\<rparr>)
          else Inr ((parse_info_fields app data)\<lparr>got_info := True\<rparr>))
       else if resp_type = CHR ''e'' then Inr app
       else if resp_type = CHR ''d'' then Inr app
       else if resp_type = CHR ''w'' then Inr app
       else if resp_type = CHR ''b'' then Inr app
       else if resp_type = CHR ''m'' then
         (if strstr data ''ON'' \<noteq> None \<or> strstr data ''MONITOR_ON'' \<noteq> None
          then Inr (app\<lparr>monitor_active := True\<rparr>)
          else if strstr data ''OFF'' \<noteq> None \<or> strstr data ''MONITOR_OFF'' \<noteq> None
          then Inr (app\<lparr>monitor_active := False\<rparr>)
          else Inr app)
       else if resp_type = CHR ''x'' then
         (case clear_deauth_flags (networks app) (network_count app) of
            Inl e \<Rightarrow> Inl e
          | Inr nets \<Rightarrow> Inr (app\<lparr>monitor_active := False, networks := nets\<rparr>))
       else if resp_type = CHR ''p'' then Inr app
       else if resp_type = CHR ''a'' then Inr app
       else if resp_type = CHR ''k'' then Inr app
       else Inr app))"

subsection \<open>Legacy dialect\<close>

text \<open>
  The field scan of the \<^verbatim>\<open>AP:\<close> branch after the leading \<^verbatim>\<open>AP\<close> token, in the same
  form as \<open>parse_network_fields\<close>: six required tokens, then the optional client count.
\<close>

definition parse_ap_fields :: "TokenState \<Rightarrow> Network \<times> bool" where
  "parse_ap_fields ts0 =
    (let net = fresh_Network in
     case token_next ts0 (CHR ''|'') of
       None \<Rightarrow> (net, False)
     | Some (token, ts) \<Rightarrow>
    (let net = net\<lparr>net_id := atoi token\<rparr> in
     case token_next ts (CHR ''|'') of
       None \<Rightarrow> (net, False)
     | Some (token, ts) \<Rightarrow>
    (let net = net\<lparr>ssid := take (MAX_SSID_LEN - 1) token\<rparr> in
     case token_next ts (CHR ''|'') of
       None \<Rightarrow> (net, False)
     | Some (token, ts) \<Rightarrow>
    (let net = net\<lparr>bssid := take (MAX_BSSID_LEN - 1) token\<rparr> in
     case token_next ts (CHR ''|'') of
       None \<Rightarrow> (net, False)
     | Some (token, ts) \<Rightarrow>
    (let net = net\<lparr>channel := atoi token\<rparr> in
     case token_next ts (CHR ''|'') of
       None \<Rightarrow> (net, False)
     | Some (token, ts) \<Rightarrow>
    (let net = net\<lparr>security := atoi token\<rparr> in
     case token_next ts (CHR ''|'') of
       None \<Rightarrow> (net, False)
     | Some (token, ts) \<Rightarrow>
    (let net = net\<lparr>net_rssi := atoi token\<rparr>;
         net = net\<lparr>net_client_count :=
                      (case token_next ts (CHR ''|'') of None \<Rightarrow> 0 | Some (token, _) \<Rightarrow> atoi token)\<rparr>;
         net = net\<lparr>is_5ghz := (channel net \<ge> 36)\<rparr>
     in (net, True))))))))"

definition process_ap_line :: "App \<Rightarrow> string \<Rightarrow> fault + App" where
  "process_ap_line app line =
    (if network_count app \<ge> MAX_NETWORKS then Inr app
     else
       let buffer = colon_to_pipe (take 127 line) in
       case token_next (token_init buffer) (CHR ''|'') of
         None \<Rightarrow> Inr app
       | Some (_, ts) \<Rightarrow>
          (let (net, complete) = parse_ap_fields ts
           in case arr_set (networks app) (network_count app) net of
                Inl e \<Rightarrow> Inl e
              | Inr nets \<Rightarrow>
                  Inr (app\<lparr>networks := nets,
                           network_count :=
                             (if complete then network_count app + 1 else network_count app)\<rparr>)))"

text \<open>The loop that looks for the first network with the given id; \<open>-1\<close> when there is none.\<close>

fun find_ap_by_id :: "Network list \<Rightarrow> int \<Rightarrow> int \<Rightarrow> int" where
  "find_ap_by_id [] ap_id i = - 1"
| "find_ap_by_id (n # ns) ap_id i = (if net_id n = ap_id then i else find_ap_by_id ns ap_id (i + 1))"

definition process_client_line :: "App \<Rightarrow> string \<Rightarrow> fault + App" where
  "process_client_line app line =
    (if client_count app \<ge> MAX_CLIENTS then Inr app
     else
       let buffer = colon_to_pipe (take 63 line) in
       case token_next (token_init buffer) (CHR ''|'') of
         None \<Rightarrow> Inr app
       | Some (_, ts) \<Rightarrow>
      (case token_next ts (CHR ''|'') of
         None \<Rightarrow> Inr app
       | Some (token, ts) \<Rightarrow>
      (case (if token = ''NEW'' then token_next ts (CHR ''|'') else Some (token, ts)) of
         None \<Rightarrow> Inr app
       | Some (token, ts) \<Rightarrow>
      (let ap_id = atoi token in
       case token_next ts (CHR ''|'') of
         None \<Rightarrow> Inr app
       | Some (client_mac, ts) \<Rightarrow>
      (let rssi = (case token_next ts (CHR ''|'') of None \<Rightarrow> - 80 | Some (token, _) \<Rightarrow> atoi token);
           ap_index = find_ap_by_id (take (nat (network_count app)) (networks app)) ap_id 0
       in
       if ap_index < 0 then Inr app
       else if client_known app client_mac then Inr app
       else
         case arr_set (clients app) (client_count app)
                \<lparr>mac = take (MAX_BSSID_LEN - 1) client_mac, cl_rssi = rssi, ap_index = ap_index\<rparr> of
           Inl e \<Rightarrow> Inl e
         | Inr cls \<Rightarrow>
        (case arr_get (networks app) ap_index of
           Inl e \<Rightarrow> Inl e
         | Inr net \<Rightarrow>
            if net_client_count net < MAX_CLIENTS_PER_AP then
              case arr_set (client_indices net) (net_client_count net) (client_count app) of
                Inl e \<Rightarrow> Inl e
              | Inr idxs \<Rightarrow>
                  Inr (app\<lparr>clients := cls,
                           networks := (networks app)
                             [nat ap_index := net\<lparr>client_indices := idxs,
                                                  net_client_count := net_client_count net + 1\<rparr>],
                           client_count := client_count app + 1\<rparr>)
            else Inr (app\<lparr>clients := cls, client_count := client_count app + 1\<rparr>)))))))"

definition process_rx_line :: "App \<Rightarrow> string \<Rightarrow> fault + App" where
  "process_rx_line app line =
    (if length line < 2 then Inr app
     else if strncmp_eq line ''AP:'' 3 then process_ap_line app line
     else if strncmp_eq line ''CLIENT:'' 7 \<or> strncmp_eq line ''STA:'' 4 then process_client_line app line
     else if strncmp_eq line ''SCAN:OK'' 7 then Inr (app\<lparr>scan_finished := True\<rparr>)
     else if strncmp_eq line ''EV:'' 3 then
       (case credentials_append (credentials app) (drop 3 line) of
          Inl e \<Rightarrow> Inl e
        | Inr creds \<Rightarrow> Inr (app\<lparr>credentials := creds\<rparr>))
     else if strncmp_eq line ''ERROR:'' 6 then Inr app
     else if strncmp_eq line ''DEAUTH:'' 7 then Inr app
     else if strncmp_eq line ''BEACON:'' 7 then Inr app
     else if strncmp_eq line ''BLE:|'' 5 then Inr app
     else if strncmp_eq line ''SCAN:'' 5 then Inr app
     else if line = ''PONG'' then Inr (app\<lparr>got_pong := True\<rparr>)
     else if strncmp_eq line ''GATTROSE-BW16:'' 14 then
       Inr (app\<lparr>firmware_type := FirmwareGattrose, firmware_response := take 127 line,
                detection_done := True\<rparr>)
     else if strncmp_eq line ''INFO:'' 5 then
       (let app = app\<lparr>got_info := True\<rparr>;
            app = (if strstr line ''Gattrose'' \<noteq> None then
                     app\<lparr>firmware_type := FirmwareGattrose,
                         firmware_version :=
                           (case strstr line ''v'' of
                              None \<Rightarrow> firmware_version app
                            | Some ver \<Rightarrow> take 31 ver)\<rparr>
                   else if strstr line ''Evil'' \<noteq> None \<or> strstr line ''BW16'' \<noteq> None then
                     app\<lparr>firmware_type := FirmwareEvilBW16\<rparr>
                   else app)
        in Inr (app\<lparr>firmware_response := take 127 line\<rparr>))
     else if strncmp_eq line ''HELP:'' 5 then
       (let app = app\<lparr>got_help := True\<rparr>
        in if strstr line ''BLESCAN'' \<noteq> None \<or> strstr line ''CLIENTS'' \<noteq> None
           then Inr (app\<lparr>firmware_type := FirmwareGattrose\<rparr>)
           else Inr app)
     else if strstr line ''Marauder'' \<noteq> None \<or> strstr line ''ESP32'' \<noteq> None then
       Inr (app\<lparr>firmware_type := FirmwareMarauder, firmware_response := take 127 line,
                detection_done := True\<rparr>)
     else if line = ''OK'' \<and> \<not> detection_done app then
       (if firmware_type app = FirmwareUnknown then Inr (app\<lparr>firmware_type := FirmwareGeneric\<rparr>)
        else Inr app)
     else if strncmp_eq line ''AT+'' 3 \<or> strncmp_eq line ''+'' 1 then
       Inr (app\<lparr>firmware_type := FirmwareGeneric\<rparr>)
     else Inr app)"

subsection \<open>Byte framer\<close>

text \<open>A write into, and a read from, the line buffer at a computed position.\<close>

definition line_store :: "char list \<Rightarrow> nat \<Rightarrow> char \<Rightarrow> fault + char list" where
  "line_store buf pos c = (if pos < length buf then Inr (buf[pos := c]) else Inl RxLineOverrun)"

definition line_load :: "char list \<Rightarrow> nat \<Rightarrow> fault + char" where
  "line_load buf pos = (if pos < length buf then Inr (buf ! pos) else Inl RxLineOverrun)"

text \<open>
  The body of the receive loop for one byte, executed while the mutex is held. The flag
  \<^verbatim>\<open>in_message\<close> is a local variable of the thread and travels with the state.
\<close>

definition uart_rx_byte :: "App \<times> bool \<Rightarrow> char \<Rightarrow> fault + (App \<times> bool)" where
  "uart_rx_byte st data =
    (let app = fst st; in_message = snd st in
     if data = PROTO_STX then Inr (app\<lparr>rx_pos := 0\<rparr>, True)
     else if data = PROTO_ETX \<and> in_message then
       (case line_store (rx_line app) (rx_pos app) NUL of
          Inl e \<Rightarrow> Inl e
        | Inr line \<Rightarrow>
            (case process_rx_message (app\<lparr>rx_line := line\<rparr>) line (rx_pos app) of
               Inl e \<Rightarrow> Inl e
             | Inr app' \<Rightarrow> Inr (app'\<lparr>rx_pos := 0\<rparr>, False)))
     else if in_message then
       (if rx_pos app < RX_LINE_SIZE - 1 then
          (case line_store (rx_line app) (rx_pos app) data of
             Inl e \<Rightarrow> Inl e
           | Inr line \<Rightarrow> Inr (app\<lparr>rx_line := line, rx_pos := rx_pos app + 1\<rparr>, in_message))
        else Inr (app, in_message))
     else if data = CHR 0x0A then
       (if rx_pos app > 0 then
          (case line_load (rx_line app) (rx_pos app - 1) of
             Inl e \<Rightarrow> Inl e
           | Inr prev \<Rightarrow>
              (let pos = (if prev = CHR 0x0D then rx_pos app - 1 else rx_pos app) in
               case line_store (rx_line app) pos NUL of
                 Inl e \<Rightarrow> Inl e
               | Inr line \<Rightarrow>
                   (case process_rx_line (app\<lparr>rx_line := line, rx_pos := pos\<rparr>) (cstr line) of
                      Inl e \<Rightarrow> Inl e
                    | Inr app' \<Rightarrow> Inr (app'\<lparr>rx_pos := 0\<rparr>, in_message))))
        else Inr (app, in_message))
     else if (32::nat) \<le> of_char data \<or> data = CHR 0x09 then
       (if rx_pos app < RX_LINE_SIZE - 1 then
          (case line_store (rx_line app) (rx_pos app) data of
             Inl e \<Rightarrow> Inl e
           | Inr line \<Rightarrow> Inr (app\<lparr>rx_line := line, rx_pos := rx_pos app + 1\<rparr>, in_message))
        else Inr (app, in_message))
     else Inr (app, in_message))"

text \<open>
  The receive loop over the bytes that arrive. Each byte comes with the outcome of
  \<^verbatim>\<open>furi_mutex_acquire\<close>: a byte for which the lock is not obtained in time is dropped.
  The loop ends when \<^verbatim>\<open>uart_running\<close> is cleared.
\<close>

fun uart_rx_thread :: "App \<times> bool \<Rightarrow> (char \<times> bool) list \<Rightarrow> fault + (App \<times> bool)" where
  "uart_rx_thread st [] = Inr st"
| "uart_rx_thread st ((data, acquired) # rest) =
    (if \<not> uart_running (fst st) then Inr st
     else if acquired then
       (case uart_rx_byte st data of
          Inl e \<Rightarrow> Inl e
        | Inr st' \<Rightarrow> uart_rx_thread st' rest)
     else uart_rx_thread st rest)"

subsection \<open>Ranking pass\<close>

definition network_should_swap :: "Network \<Rightarrow> Network \<Rightarrow> bool" where
  "network_should_swap a b =
    (if net_client_count a > 0 \<and> net_client_count b = 0 then False
     else if net_client_count a = 0 \<and> net_client_count b > 0 then True
     else net_rssi a < net_rssi b)"

text \<open>A \<^verbatim>\<open>for\<close> loop whose body may fault: the body runs for each index in turn.\<close>

fun for_each :: "('s \<Rightarrow> nat \<Rightarrow> fault + 's) \<Rightarrow> 's \<Rightarrow> nat list \<Rightarrow> fault + 's" where
  "for_each body s [] = Inr s"
| "for_each body s (i # rest) =
     (case body s i of Inl e \<Rightarrow> Inl e | Inr s' \<Rightarrow> for_each body s' rest)"

text \<open>The body of the inner loop of the bubble sort: compare slots \<open>j\<close> and \<open>j + 1\<close>, swap.\<close>

definition swap_step :: "Network list \<Rightarrow> nat \<Rightarrow> fault + Network list" where
  "swap_step nets j =
    (if j + 1 < length nets then
       Inr (if network_should_swap (nets ! j) (nets ! (j + 1))
            then nets[j := nets ! (j + 1), j + 1 := nets ! j]
            else nets)
     else Inl IndexOutOfRange)"

definition sort_pass :: "int \<Rightarrow> Network list \<Rightarrow> nat \<Rightarrow> fault + Network list" where
  "sort_pass cnt nets i = for_each swap_step nets [0 ..< nat (cnt - int i - 1)]"

definition bubble_sort :: "Network list \<Rightarrow> int \<Rightarrow> fault + Network list" where
  "bubble_sort nets cnt = for_each (sort_pass cnt) nets [0 ..< nat (cnt - 1)]"

text \<open>
  The innermost loop of the re-link pass: does client position \<open>c\<close> occur among the first
  \<^verbatim>\<open>client_count\<close> slots of the index array? A count above the array's 16 slots makes the
  loop read past the array unless it finds \<open>c\<close> first.
\<close>

fun index_listed :: "int list \<Rightarrow> int \<Rightarrow> nat list \<Rightarrow> fault + bool" where
  "index_listed idxs c [] = Inr False"
| "index_listed idxs c (ci # rest) =
     (if ci < length idxs then
        (if idxs ! ci = c then Inr True else index_listed idxs c rest)
      else Inl IndexOutOfRange)"

definition relink_step :: "Network list \<Rightarrow> nat \<Rightarrow> Client list \<Rightarrow> nat \<Rightarrow> fault + Client list" where
  "relink_step nets c cls n =
    (case arr_get nets (int n) of
       Inl e \<Rightarrow> Inl e
     | Inr net \<Rightarrow>
        (case index_listed (client_indices net) (int c) [0 ..< nat (net_client_count net)] of
           Inl e \<Rightarrow> Inl e
         | Inr found \<Rightarrow>
             if found then
               (case arr_get cls (int c) of
                  Inl e \<Rightarrow> Inl e
                | Inr cl \<Rightarrow> arr_set cls (int c) (cl\<lparr>ap_index := int n\<rparr>))
             else Inr cls))"

definition relink_client :: "Network list \<Rightarrow> int \<Rightarrow> Client list \<Rightarrow> nat \<Rightarrow> fault + Client list" where
  "relink_client nets cnt cls c = for_each (relink_step nets c) cls [0 ..< nat cnt]"

definition sort_networks :: "App \<Rightarrow> fault + App" where
  "sort_networks app =
    (case bubble_sort (networks app) (network_count app) of
       Inl e \<Rightarrow> Inl e
     | Inr nets \<Rightarrow>
        (case for_each (relink_client nets (network_count app)) (clients app)
                [0 ..< nat (client_count app)] of
           Inl e \<Rightarrow> Inl e
         | Inr cls \<Rightarrow> Inr (app\<lparr>networks := nets, clients := cls\<rparr>)))"

subsection \<open>Sending\<close>

text \<open>
  \<open>tx\<close> is the stream of bytes handed to \<^verbatim>\<open>furi_hal_serial_tx\<close>. Every call in the source
  passes the length 0, so the whole command string is sent.
\<close>

definition uart_send :: "App \<Rightarrow> string \<Rightarrow> App" where
  "uart_send app cmd =
    (if \<not> serial_open app \<or> \<not> uart_running app then app
     else app\<lparr>tx := tx app @ [PROTO_STX] @ cmd @ [PROTO_ETX]\<rparr>)"

definition uart_send_legacy :: "App \<Rightarrow> string \<Rightarrow> App" where
  "uart_send_legacy app cmd =
    (if \<not> serial_open app \<or> \<not> uart_running app then app
     else app\<lparr>tx := tx app @ cmd @ [CHR 0x0A]\<rparr>)"

subsection \<open>Firmware detection\<close>

text \<open>The code after the label \<^verbatim>\<open>detection_complete\<close>.\<close>

definition detection_complete :: "App \<Rightarrow> App" where
  "detection_complete app = app\<lparr>caps := firmware_caps (firmware_type app)\<rparr>"

text \<open>
  \<^verbatim>\<open>detect_firmware\<close> sleeps six times in \<^verbatim>\<open>furi_delay_ms\<close>; meanwhile the receive thread
  decodes whatever arrives and is the only other writer of the state. \<open>wait k\<close> is what
  the receive thread did to the state during the \<open>k\<close>-th sleep.
\<close>

definition detect_firmware :: "(nat \<Rightarrow> App \<Rightarrow> App) \<Rightarrow> App \<Rightarrow> App" where
  "detect_firmware wait app0 =
    (if \<not> connected app0 then app0
     else
       let app = app0\<lparr>firmware_type := FirmwareUnknown, firmware_version := [],
                      firmware_response := [], detection_done := False, got_pong := False,
                      got_info := False, got_help := False\<rparr>;
           app = wait 0 app
       in
       if detection_done app \<and> firmware_type app = FirmwareGattrose then detection_complete app
       else
         let app = uart_send app ''i'';
             app = wait 1 app
         in
         if detection_done app \<or> got_info app then
           detection_complete
             (if firmware_type app = FirmwareUnknown \<and> got_info app
              then app\<lparr>firmware_type := FirmwareGattrose\<rparr> else app)
         else
           let app = uart_send_legacy app ''INFO'';
               app = wait 2 app
           in
           if detection_done app then detection_complete app
           else
             let app = uart_send_legacy app ''PING'';
                 app = wait 3 app;
                 app = (if got_pong app then app\<lparr>firmware_type := FirmwareEvilBW16\<rparr> else app);
                 app = (if firmware_type app = FirmwareUnknown
                        then wait 4 (uart_send_legacy app ''HELP'') else app);
                 app = (if firmware_type app = FirmwareUnknown
                        then wait 5 (uart_send_legacy app ''AT'') else app)
             in detection_complete app)"

subsection \<open>Deauth command\<close>

text \<open>\<^verbatim>\<open>snprintf\<close> into a buffer of \<open>n\<close> bytes keeps at most \<open>n - 1\<close> characters.\<close>

definition snprintf_buf :: "nat \<Rightarrow> string \<Rightarrow> string" where
  "snprintf_buf n s = take (n - 1) s"

definition send_attack_config :: "App \<Rightarrow> App" where
  "send_attack_config app =
    (let app = uart_send app (snprintf_buf 32 (''APMAC '' @ custom_mac app));
         app = uart_send app (snprintf_buf 32 (''REASON '' @ dec_string (deauth_reason app)));
         app = uart_send app (snprintf_buf 32 (''PORTAL '' @ dec_string (portal_type app)))
     in app)"

text \<open>
  \<^verbatim>\<open>do_deauth\<close> toggles the attack on the selected network. The short sleeps between its
  sends are not modelled as interleaving points.
\<close>

definition do_deauth :: "App \<Rightarrow> fault + App" where
  "do_deauth app =
    (let idx = selected_network app in
     if \<not> connected app \<or> idx < 0 \<or> idx \<ge> network_count app then Inr app
     else
       case arr_get (networks app) idx of
         Inl e \<Rightarrow> Inl e
       | Inr net \<Rightarrow>
          if deauth_active net then
            (let app = (if firmware_type app = FirmwareGattrose
                        then uart_send (uart_send app ''ds'') ''r0,255,0''
                        else uart_send_legacy app
                               (snprintf_buf 64 (''STOP '' @ dec_string (net_id net))))
             in Inr (app\<lparr>networks := (networks app)[nat idx := net\<lparr>deauth_active := False\<rparr>]\<rparr>))
          else
            (let app = (if firmware_type app = FirmwareGattrose
                        then uart_send (uart_send app ''r3'')
                               (if deauth_reason app \<noteq> 2
                                then snprintf_buf 64 (''d'' @ dec_string (net_id net) @ ''-''
                                                      @ dec_string (deauth_reason app))
                                else snprintf_buf 64 (''d'' @ dec_string (net_id net)))
                        else uart_send_legacy (send_attack_config app)
                               (snprintf_buf 64 (''DEAUTH '' @ dec_string (net_id net))))
             in Inr (app\<lparr>networks := (networks app)[nat idx := net\<lparr>deauth_active := True\<rparr>]\<rparr>)))"

subsection \<open>The zeroed application state\<close>

text \<open>\<^verbatim>\<open>app_alloc\<close> allocates the state and clears it with \<^verbatim>\<open>memset\<close>.\<close>

definition zero_App :: App where
  "zero_App =
    \<lparr>serial_open = False, uart_running = False, connected = False, tx = [],
     networks = replicate 64 zero_Network, network_count = 0,
     clients = replicate 128 zero_Client, client_count = 0, selected_network = 0,
     ble_devices = replicate 32 zero_BleDevice, ble_count = 0,
     monitor_active = False, deauth_reason = 0, portal_type = 0, custom_mac = [],
     credentials = replicate CREDENTIALS_SIZE NUL, scan_finished = False, scanning = False,
     rx_line = replicate RX_LINE_SIZE NUL, rx_pos = 0,
     firmware_type = FirmwareUnknown,
     caps = mk_caps False False False False False False False False False False False False,
     firmware_version = [], firmware_response = [], detection_done = False,
     got_pong = False, got_info = False, got_help = False,
     device_channel = 0, device_deauth_count = 0, device_beacon_active = False,
     device_ap_active = False, device_ble_count = 0\<rparr>"

subsection \<open>Predicates used in the statements\<close>

text \<open>
  The receive thread recognised no response during any of the sleeps of
  \<^verbatim>\<open>detect_firmware\<close>: it changed none of the fields through which the decoders report
  a boot banner, an info response, a PONG or a vendor signature.
\<close>

definition quiet_receiver :: "(nat \<Rightarrow> App \<Rightarrow> App) \<Rightarrow> bool" where
  "quiet_receiver wait =
    (\<forall>k app. firmware_type (wait k app) = firmware_type app
           \<and> detection_done (wait k app) = detection_done app
           \<and> got_info (wait k app) = got_info app
           \<and> got_pong (wait k app) = got_pong app)"

text \<open>
  The tokens the scanner delivers when \<^verbatim>\<open>token_next\<close> is called until it returns
  \<^verbatim>\<open>NULL\<close>: the fields of a message body as the decoders see them.
\<close>

function scan_tokens :: "char \<Rightarrow> TokenState \<Rightarrow> string list" where
  "scan_tokens delim ts =
     (case token_next ts delim of None \<Rightarrow> [] | Some (tok, ts') \<Rightarrow> tok # scan_tokens delim ts')"
  by pat_completeness auto
termination
proof (relation "measure (\<lambda>(delim, ts). length ts)")
  show "wf (measure (\<lambda>(delim, ts). length ts))" by simp
next
  fix delim :: char and ts :: TokenState and x2 :: "string \<times> TokenState" and tok ts'
  assume "token_next ts delim = Some x2" and "(tok, ts') = x2"
  then have "ts \<noteq> []" and "ts' = drop 1 (dropWhile (\<lambda>c. c \<noteq> delim) ts)"
    by (auto simp: token_next_def split: if_splits)
  then have "length ts' < length ts"
    using length_dropWhile_le [of "\<lambda>c. c \<noteq> delim" ts] by (cases ts) auto
  then show "((delim, ts'), (delim, ts)) \<in> measure (\<lambda>(delim, ts). length ts)" by simp
qed

declare scan_tokens.simps [simp del]

text \<open>
  A network message is valid when the decoder finds its five required fields (id, SSID,
  BSSID, channel, signal) in the first 127 bytes of the body.
\<close>

definition network_message_valid :: "string \<Rightarrow> bool" where
  "network_message_valid data =
     (5 \<le> length (scan_tokens (CHR ''|'') (sep_to_pipe (take 127 data))))"

text \<open>
  The credential log is well formed when it has its declared size and holds a terminator
  early enough that the \<^verbatim>\<open>size_t\<close> subtraction of the append does not wrap: the text is
  at most 510 bytes long. The zeroed log is well formed and every append keeps it so.
  \<open>creds_remaining\<close> is the room left for text in front of the terminator.
\<close>

definition creds_ok :: "char list \<Rightarrow> bool" where
  "creds_ok creds =
     (length creds = CREDENTIALS_SIZE \<and> NUL \<in> set creds \<and> length (cstr creds) \<le> 510)"

definition creds_remaining :: "char list \<Rightarrow> nat" where
  "creds_remaining creds = CREDENTIALS_SIZE - 1 - length (cstr creds)"

text \<open>A command inside its binary frame, and the deauth-by-id command for the selected network.\<close>

definition frame :: "string \<Rightarrow> char list" where
  "frame cmd = PROTO_STX # cmd @ [PROTO_ETX]"

definition deauth_by_id_command :: "App \<Rightarrow> string" where
  "deauth_by_id_command app =
     (let net = networks app ! nat (selected_network app) in
      if deauth_reason app \<noteq> 2
      then snprintf_buf 64 (''d'' @ dec_string (net_id net) @ ''-'' @ dec_string (deauth_reason app))
      else snprintf_buf 64 (''d'' @ dec_string (net_id net)))"

text \<open>A session on the native firmware with one network in the inventory, selected.\<close>

definition native_session :: App where
  "native_session =
     zero_App\<lparr>serial_open := True, uart_running := True, connected := True,
              firmware_type := FirmwareGattrose, network_count := 1, deauth_reason := 2\<rparr>"

text \<open>
  The framer's buffer is in order when it has its declared size and the position lies
  inside it with room for the terminator. The zeroed state is in order.
\<close>

definition framer_ok :: "App \<Rightarrow> bool" where
  "framer_ok app = (length (rx_line app) = RX_LINE_SIZE \<and> rx_pos app < RX_LINE_SIZE)"

text \<open>
  A decoder result respects the line buffer: it is not a line-buffer fault, and a state it
  returns has the buffer and the position it was given. \<open>step_ok\<close> is the same for one
  step of the framer.
\<close>

definition keeps_line :: "App \<Rightarrow> fault + App \<Rightarrow> bool" where
  "keeps_line app r =
     (case r of
        Inl e \<Rightarrow> e \<noteq> RxLineOverrun
      | Inr app' \<Rightarrow> rx_line app' = rx_line app \<and> rx_pos app' = rx_pos app)"

definition step_ok :: "fault + (App \<times> bool) \<Rightarrow> bool" where
  "step_ok r = (case r of Inl e \<Rightarrow> e \<noteq> RxLineOverrun | Inr st' \<Rightarrow> framer_ok (fst st'))"

text \<open>
  The occupancy of a client-index list: the number of its valid (non-negative) entries.
  A list is \<open>prefix_valid\<close> when its valid entries come first, which is how the binary
  client decoder fills it. \<open>wire_count_network\<close> is the network of the scenario frame sent
  with a client count of 5.
\<close>

definition valid_entries :: "int list \<Rightarrow> int" where
  "valid_entries idxs = int (length (filter (\<lambda>x. 0 \<le> x) idxs))"

definition prefix_valid :: "int list \<Rightarrow> bool" where
  "prefix_valid idxs = (filter (\<lambda>x. 0 \<le> x) idxs = takeWhile (\<lambda>x. 0 \<le> x) idxs)"

definition wire_count_network :: Network where
  "wire_count_network =
     \<lparr>net_id = 3, ssid = ''MyAP'', bssid = ''AA:BB:CC:DD:EE:FF'', channel = 6,
      net_rssi = - 42, security = 0, is_5ghz = False, deauth_active = False,
      net_client_count = 5, client_indices = replicate 16 (- 1),
      security_str = ''WPA2-AES'', has_pmf = False, hidden = False\<rparr>"

text \<open>What a decoded client message may do to the network in slot \<open>n\<close>.\<close>

definition client_link_post :: "App \<Rightarrow> nat \<Rightarrow> fault + App \<Rightarrow> bool" where
  "client_link_post app n r =
     (case r of
        Inl e \<Rightarrow> True
      | Inr app' \<Rightarrow>
          networks app' ! n = networks app ! n
          \<or> (prefix_valid (client_indices (networks app' ! n))
              \<and> valid_entries (client_indices (networks app' ! n))
                  = valid_entries (client_indices (networks app ! n)) + 1
              \<and> net_client_count (networks app' ! n)
                  = max (net_client_count (networks app ! n))
                        (valid_entries (client_indices (networks app' ! n)))))"

text \<open>
  The client count as sent in a network message: the seventh field read with \<^verbatim>\<open>atoi\<close>,
  0 when the message has no seventh field. The two states are the zeroed state after the
  network frame with count 5, and that state after a client of network 0 was decoded.
\<close>

definition wire_client_count :: "string \<Rightarrow> int" where
  "wire_client_count data =
     (let toks = scan_tokens (CHR ''|'') (sep_to_pipe (take 127 data))
      in if 6 < length toks then atoi (toks ! 6) else 0)"

definition wire_count_state :: App where
  "wire_count_state =
     zero_App\<lparr>networks := (networks zero_App)[0 := wire_count_network], network_count := 1\<rparr>"

definition wire_count_linked_state :: App where
  "wire_count_linked_state =
     wire_count_state
       \<lparr>clients := (clients wire_count_state)
                     [0 := \<lparr>mac = ''AA:BB:CC:DD:EE:01'', cl_rssi = - 60, ap_index = 0\<rparr>],
        networks := (networks wire_count_state)
                     [0 := wire_count_network\<lparr>client_indices := (replicate 16 (- 1))[0 := 0]\<rparr>],
        client_count := 1\<rparr>"

text \<open>
  The bytes that end a field of a binary body: the separator byte and \<^verbatim>\<open>|\<close>.
\<close>

definition is_sep :: "char \<Rightarrow> bool" where
  "is_sep c = (c = CHR ''|'' \<or> c = PROTO_SEP)"

text \<open>
  The counts of the state lie inside the arrays, a Client collection that is not full has a
  free slot, and the index list of every live network has its 16 slots.
\<close>

definition inventory_ok :: "App \<Rightarrow> bool" where
  "inventory_ok app =
     (0 \<le> network_count app \<and> nat (network_count app) \<le> length (networks app)
      \<and> 0 \<le> client_count app \<and> nat (client_count app) \<le> length (clients app)
      \<and> (client_count app < MAX_CLIENTS \<longrightarrow> nat (client_count app) < length (clients app))
      \<and> (\<forall>net\<in>set (take (nat (network_count app)) (networks app)).
            length (client_indices net) = nat MAX_CLIENTS_PER_AP))"

text \<open>
  A state with one network and one client of it, as the binary decoders leave it after
  the scenario network frame and the client message \<^verbatim>\<open>0|11:22:33:44:55:66|-60\<close>; a
  client message for the same MAC whose index field is padded with zeros to 49 digits; and
  the state with the network alone, before the client was decoded.
\<close>

definition known_client_network :: Network where
  "known_client_network =
     \<lparr>net_id = 3, ssid = ''MyAP'', bssid = ''AA:BB:CC:DD:EE:FF'', channel = 6,
      net_rssi = - 42, security = 0, is_5ghz = False, deauth_active = False,
      net_client_count = 1, client_indices = 0 # replicate 15 (- 1),
      security_str = ''WPA2-AES'', has_pmf = False, hidden = False\<rparr>"

definition known_client_state :: App where
  "known_client_state =
     zero_App\<lparr>networks := (networks zero_App)[0 := known_client_network], network_count := 1,
              clients := (clients zero_App)
                [0 := \<lparr>mac = ''11:22:33:44:55:66'', cl_rssi = - 60, ap_index = 0\<rparr>],
              client_count := 1\<rparr>"

definition padded_client_message :: string where
  "padded_client_message = ''0000000000000000000000000000000000000000000000000|11:22:33:44:55:66|-60''"

definition lone_network_state :: App where
  "lone_network_state =
     zero_App\<lparr>networks := (networks zero_App)
                  [0 := known_client_network
                          \<lparr>client_indices := replicate 16 (- 1), net_client_count := 0\<rparr>],
               network_count := 1\<rparr>"










text \<open>
  Inventory states as the decoders leave them. \<open>unranked_state\<close> has three networks,
  the second sent with a client count of -1, the third sent with a count of 16 and holding
  the first of two clients; its second client found the count at the cap and was stored
  without being linked. \<open>wire_ranked_state\<close> has a network sent with a client count of 5
  and no client, in front of a weaker network with one client. \<open>overrun_state\<close> is the
  same with a count of 17 sent. \<open>then_line\<close> and \<open>then_frame\<close> chain decoder calls.
\<close>

definition unranked_network :: "int \<Rightarrow> int \<Rightarrow> int \<Rightarrow> int list \<Rightarrow> Network" where
  "unranked_network i r cc idxs =
     \<lparr>net_id = i, ssid = ''a'', bssid = ''b'', channel = 1, net_rssi = r, security = 0,
      is_5ghz = False, deauth_active = False, net_client_count = cc, client_indices = idxs,
      security_str = [], has_pmf = False, hidden = False\<rparr>"

definition unranked_state :: App where
  "unranked_state =
     zero_App
       \<lparr>networks := (networks zero_App)
          [0 := unranked_network 0 (- 10) 0 (replicate 16 (- 1)),
           1 := unranked_network 1 (- 50) (- 1) (replicate 16 (- 1)),
           2 := unranked_network 2 (- 90) 16 (0 # replicate 15 (- 1))],
        network_count := 3,
        clients := (clients zero_App)
          [0 := \<lparr>mac = ''AA'', cl_rssi = - 60, ap_index = 2\<rparr>,
           1 := \<lparr>mac = ''BB'', cl_rssi = - 70, ap_index = 2\<rparr>],
        client_count := 2\<rparr>"

definition then_line :: "fault + App \<Rightarrow> string \<Rightarrow> fault + App" where
  "then_line r line = (case r of Inl e \<Rightarrow> Inl e | Inr app \<Rightarrow> process_rx_line app line)"

definition then_frame :: "fault + App \<Rightarrow> string \<Rightarrow> fault + App" where
  "then_frame r msg =
     (case r of Inl e \<Rightarrow> Inl e | Inr app \<Rightarrow> process_rx_message app (msg @ [NUL]) (length msg))"

definition framed_network :: "int \<Rightarrow> int \<Rightarrow> int \<Rightarrow> int list \<Rightarrow> Network" where
  "framed_network i r cc idxs =
     \<lparr>net_id = i, ssid = ''a'', bssid = ''b'', channel = 1, net_rssi = r, security = 0,
      is_5ghz = False, deauth_active = False, net_client_count = cc, client_indices = idxs,
      security_str = ''???'', has_pmf = False, hidden = False\<rparr>"

definition wire_ranked_state :: App where
  "wire_ranked_state =
     zero_App
       \<lparr>networks := (networks zero_App)
          [0 := framed_network 0 (- 40) 5 (replicate 16 (- 1)),
           1 := framed_network 1 (- 70) 1 (0 # replicate 15 (- 1))],
        network_count := 2,
        clients := (clients zero_App)[0 := \<lparr>mac = ''AA'', cl_rssi = - 60, ap_index = 1\<rparr>],
        client_count := 1\<rparr>"

definition overrun_state :: App where
  "overrun_state =
     zero_App
       \<lparr>networks := (networks zero_App)
          [0 := framed_network 0 (- 40) 17 (replicate 16 (- 1)),
           1 := framed_network 1 (- 70) 1 (0 # replicate 15 (- 1))],
        network_count := 2,
        clients := (clients zero_App)[0 := \<lparr>mac = ''AA'', cl_rssi = - 60, ap_index = 1\<rparr>],
        client_count := 1\<rparr>"

section \<open>Properties\<close>

lemmas atoi_eval =
  atoi_def is_space_def is_digit_def digit_val_def clamp_int_def INT_MAX_def INT_MIN_def

lemma nth_in_take:
  assumes "j < N" and "j < length s"
  shows "s ! j \<in> set (take N s)"
proof -
  have "take N s ! j \<in> set (take N s)" by (rule nth_mem) (use assms in simp)
  then show ?thesis using assms by simp
qed

subsection \<open>Firmware detection without a response\<close>

lemma uart_send_detection_fields [simp]:
  "firmware_type (uart_send app cmd) = firmware_type app"
  "detection_done (uart_send app cmd) = detection_done app"
  "got_info (uart_send app cmd) = got_info app"
  "got_pong (uart_send app cmd) = got_pong app"
  "firmware_type (uart_send_legacy app cmd) = firmware_type app"
  "detection_done (uart_send_legacy app cmd) = detection_done app"
  "got_info (uart_send_legacy app cmd) = got_info app"
  "got_pong (uart_send_legacy app cmd) = got_pong app"
  by (simp_all add: uart_send_def uart_send_legacy_def)

text \<open>
  Claim C7. When the peripheral is connected and the receive thread recognises no response
  during any of the waits of \<^verbatim>\<open>detect_firmware\<close>, the profile resolves to Unknown and
  the attached capability set enables WiFi scan and broadcast deauth and nothing else.
\<close>

theorem detect_firmware_no_response:
  assumes "connected app" and "quiet_receiver wait"
  shows "firmware_type (detect_firmware wait app) = FirmwareUnknown
       \<and> wifi_scan (caps (detect_firmware wait app))
       \<and> broadcast_deauth (caps (detect_firmware wait app))
       \<and> \<not> wifi_scan_5ghz (caps (detect_firmware wait app))
       \<and> \<not> client_detection (caps (detect_firmware wait app))
       \<and> \<not> targeted_deauth (caps (detect_firmware wait app))
       \<and> \<not> beacon_spam (caps (detect_firmware wait app))
       \<and> \<not> evil_twin (caps (detect_firmware wait app))
       \<and> \<not> ble_scan (caps (detect_firmware wait app))
       \<and> \<not> ble_spam (caps (detect_firmware wait app))
       \<and> \<not> channel_hop (caps (detect_firmware wait app))
       \<and> \<not> monitor_mode (caps (detect_firmware wait app))
       \<and> \<not> eapol_capture (caps (detect_firmware wait app))"
  using assms
  by (simp add: detect_firmware_def detection_complete_def quiet_receiver_def Let_def mk_caps_def)

theorem detect_firmware_no_response_witness:
  "connected (zero_App\<lparr>connected := True\<rparr>)
   \<and> quiet_receiver (\<lambda>k s. s)
   \<and> firmware_type (detect_firmware (\<lambda>k s. s) (zero_App\<lparr>connected := True\<rparr>)) = FirmwareUnknown
   \<and> wifi_scan (caps (detect_firmware (\<lambda>k s. s) (zero_App\<lparr>connected := True\<rparr>)))
   \<and> broadcast_deauth (caps (detect_firmware (\<lambda>k s. s) (zero_App\<lparr>connected := True\<rparr>)))
   \<and> \<not> targeted_deauth (caps (detect_firmware (\<lambda>k s. s) (zero_App\<lparr>connected := True\<rparr>)))"
  using detect_firmware_no_response [of "zero_App\<lparr>connected := True\<rparr>" "\<lambda>k s. s"]
  by (simp add: quiet_receiver_def)

subsection \<open>The binary network frame of the scenario\<close>

text \<open>
  Claim C4. The frame with tag \<^verbatim>\<open>n\<close> and body
  \<^verbatim>\<open>3|MyAP|AA:BB:CC:DD:EE:FF|6|-42|2|0|WPA2-AES|0|0\<close>, decoded while the Network
  collection is not full, stores exactly one new Network at the end of the collection, with
  id 3, ssid MyAP, bssid AA:BB:CC:DD:EE:FF, channel 6, rssi -42, not 5 GHz, client count 0,
  security label WPA2-AES, no PMF, not hidden; the count grows by one and nothing else in
  the state changes. The message is the line buffer: tag, body, the terminator the framer
  wrote, and whatever bytes follow it.
\<close>

theorem network_frame_scenario:
  assumes "0 \<le> network_count app" and "network_count app < MAX_NETWORKS"
      and "length (networks app) = 64"
  shows "process_rx_message app
           (CHR ''n'' # ''3|MyAP|AA:BB:CC:DD:EE:FF|6|-42|2|0|WPA2-AES|0|0'' @ NUL # junk) 48 =
         Inr (app\<lparr>networks := (networks app)[nat (network_count app) :=
                     \<lparr>net_id = 3, ssid = ''MyAP'', bssid = ''AA:BB:CC:DD:EE:FF'', channel = 6,
                      net_rssi = - 42, security = 0, is_5ghz = False, deauth_active = False,
                      net_client_count = 0, client_indices = replicate 16 (- 1),
                      security_str = ''WPA2-AES'', has_pmf = False, hidden = False\<rparr>],
                  network_count := network_count app + 1\<rparr>)"
  using assms
  by (simp add: process_rx_message_def cstr_def parse_network_message_def sep_to_pipe_def
      parse_network_fields_def token_next_def token_init_def atoi_eval Let_def arr_set_def
      fresh_Network_def zero_Network_def)

theorem network_frame_scenario_witness:
  "0 \<le> network_count zero_App \<and> network_count zero_App < MAX_NETWORKS
   \<and> length (networks zero_App) = 64
   \<and> process_rx_message zero_App
       (CHR ''n'' # ''3|MyAP|AA:BB:CC:DD:EE:FF|6|-42|2|0|WPA2-AES|0|0'' @ NUL # []) 48 =
     Inr (zero_App\<lparr>networks := (networks zero_App)[nat (network_count zero_App) :=
                     \<lparr>net_id = 3, ssid = ''MyAP'', bssid = ''AA:BB:CC:DD:EE:FF'', channel = 6,
                      net_rssi = - 42, security = 0, is_5ghz = False, deauth_active = False,
                      net_client_count = 0, client_indices = replicate 16 (- 1),
                      security_str = ''WPA2-AES'', has_pmf = False, hidden = False\<rparr>],
                  network_count := network_count zero_App + 1\<rparr>)"
proof -
  have h: "0 \<le> network_count zero_App" "network_count zero_App < MAX_NETWORKS"
    "length (networks zero_App) = 64"
    by (simp_all add: zero_App_def)
  show ?thesis
    using h network_frame_scenario [OF h, of "[]"] by simp
qed

subsection \<open>The legacy network line of the scenario\<close>

text \<open>
  Claim C3. The legacy line \<^verbatim>\<open>AP:1:TestNet:11:22:33:44:55:66:6:1049600:-55\<close> is meant to
  decode to id 1, ssid TestNet, bssid 11:22:33:44:55:66, channel 6, security 1049600, rssi
  -55. The decoder rewrites every colon of the line to the field separator, the colons
  inside the BSSID included, so the BSSID is cut after its first octet and every later
  field is read from the wrong position. This is what the code stores, starting from the
  zeroed state: bssid 11, channel 22, security 33, rssi 44, client count 55.
\<close>

theorem legacy_ap_line_scenario:
  "process_rx_line zero_App ''AP:1:TestNet:11:22:33:44:55:66:6:1049600:-55'' =
     Inr (zero_App\<lparr>networks := (networks zero_App)[0 :=
             \<lparr>net_id = 1, ssid = ''TestNet'', bssid = ''11'', channel = 22,
              net_rssi = 44, security = 33, is_5ghz = False, deauth_active = False,
              net_client_count = 55, client_indices = replicate 16 (- 1),
              security_str = [], has_pmf = False, hidden = False\<rparr>],
           network_count := 1\<rparr>)"
  by (simp add: process_rx_line_def strncmp_eq_def process_ap_line_def colon_to_pipe_def
      parse_ap_fields_def token_next_def token_init_def atoi_eval Let_def arr_set_def
      fresh_Network_def zero_Network_def zero_App_def)

theorem legacy_ap_line_scenario_witness:
  "\<exists>app'. process_rx_line zero_App ''AP:1:TestNet:11:22:33:44:55:66:6:1049600:-55'' = Inr app'
      \<and> network_count app' = 1
      \<and> bssid (networks app' ! 0) = ''11''
      \<and> channel (networks app' ! 0) = 22
      \<and> security (networks app' ! 0) = 33
      \<and> net_rssi (networks app' ! 0) = 44"
  using legacy_ap_line_scenario by (simp add: zero_App_def)

subsection \<open>Network decoding and capacity\<close>

lemma scan_tokens_ge:
  assumes "k \<le> length (scan_tokens d ts)" and "0 < k"
  shows "\<exists>tok ts'. token_next ts d = Some (tok, ts')
           \<and> scan_tokens d ts = tok # scan_tokens d ts'
           \<and> k - 1 \<le> length (scan_tokens d ts')"
proof (cases "token_next ts d")
  case None
  then have "scan_tokens d ts = []" by (subst scan_tokens.simps) simp
  with assms show ?thesis by simp
next
  case (Some p)
  obtain tok ts' where p: "p = (tok, ts')" by (cases p)
  with Some have eq: "scan_tokens d ts = tok # scan_tokens d ts'"
    by (subst scan_tokens.simps) simp
  with assms Some p show ?thesis by auto
qed

lemma scan_tokens_None: "token_next ts d = None \<Longrightarrow> scan_tokens d ts = []"
  by (subst scan_tokens.simps) simp

lemma scan_tokens_Some:
  "token_next ts d = Some (tok, ts') \<Longrightarrow> scan_tokens d ts = tok # scan_tokens d ts'"
  by (subst scan_tokens.simps) simp

text \<open>
  With five tokens in the buffer the field scan reaches its end; the index list it leaves
  is all \<open>-1\<close>, and the client count it stores is the seventh field as sent, or 0 when the
  message has no seventh field.
\<close>

lemma parse_network_fields_complete:
  assumes "5 \<le> length (scan_tokens (CHR ''|'') buffer)"
  shows "snd (parse_network_fields buffer)
       \<and> client_indices (fst (parse_network_fields buffer)) = replicate 16 (- 1)
       \<and> net_client_count (fst (parse_network_fields buffer)) =
           (if 6 < length (scan_tokens (CHR ''|'') buffer)
            then atoi (scan_tokens (CHR ''|'') buffer ! 6) else 0)"
proof -
  from scan_tokens_ge [OF assms] obtain t1 s1 where 1:
    "token_next buffer (CHR ''|'') = Some (t1, s1)"
    "scan_tokens (CHR ''|'') buffer = t1 # scan_tokens (CHR ''|'') s1"
    "4 \<le> length (scan_tokens (CHR ''|'') s1)" by auto
  from scan_tokens_ge [OF 1(3)] obtain t2 s2 where 2:
    "token_next s1 (CHR ''|'') = Some (t2, s2)"
    "scan_tokens (CHR ''|'') s1 = t2 # scan_tokens (CHR ''|'') s2"
    "3 \<le> length (scan_tokens (CHR ''|'') s2)" by auto
  from scan_tokens_ge [OF 2(3)] obtain t3 s3 where 3:
    "token_next s2 (CHR ''|'') = Some (t3, s3)"
    "scan_tokens (CHR ''|'') s2 = t3 # scan_tokens (CHR ''|'') s3"
    "2 \<le> length (scan_tokens (CHR ''|'') s3)" by auto
  from scan_tokens_ge [OF 3(3)] obtain t4 s4 where 4:
    "token_next s3 (CHR ''|'') = Some (t4, s4)"
    "scan_tokens (CHR ''|'') s3 = t4 # scan_tokens (CHR ''|'') s4"
    "1 \<le> length (scan_tokens (CHR ''|'') s4)" by auto
  from scan_tokens_ge [OF 4(3)] obtain t5 s5 where 5:
    "token_next s4 (CHR ''|'') = Some (t5, s5)"
    "scan_tokens (CHR ''|'') s4 = t5 # scan_tokens (CHR ''|'') s5" by auto
  note toks = 1(2) 2(2) 3(2) 4(2) 5(2)
  note nexts = 1(1) 2(1) 3(1) 4(1) 5(1)
  show ?thesis
  proof (cases "token_next s5 (CHR ''|'')")
    case None
    then show ?thesis
      by (simp add: parse_network_fields_def token_init_def nexts toks Let_def fresh_Network_def
          zero_Network_def scan_tokens_None)
  next
    case (Some p6)
    obtain t6 s6 where p6: "p6 = (t6, s6)" by (cases p6)
    show ?thesis
    proof (cases "token_next s6 (CHR ''|'')")
      case None
      then show ?thesis using Some p6
        by (simp add: parse_network_fields_def token_init_def nexts toks Let_def fresh_Network_def
          zero_Network_def scan_tokens_None scan_tokens_Some [of s5])
    next
      case (Some p7)
      obtain t7 s7 where p7: "p7 = (t7, s7)" by (cases p7)
      show ?thesis using Some p7 \<open>token_next s5 (CHR ''|'') = Some p6\<close> p6
        by (simp add: parse_network_fields_def token_init_def nexts toks Let_def fresh_Network_def
          zero_Network_def scan_tokens_Some [of s5] scan_tokens_Some [of s6] split: option.splits)
    qed
  qed
qed

lemma scenario_body_valid:
  "network_message_valid ''3|MyAP|AA:BB:CC:DD:EE:FF|6|-42|2|0|WPA2-AES|0|0''"
  by (simp add: network_message_valid_def sep_to_pipe_def scan_tokens.simps token_next_def)

text \<open>
  Claim C5. A network message decoded while the Network array is full (count at 64) leaves
  the whole state, and so the count and every entry, unchanged. A valid network message
  decoded while there is room makes the count grow by exactly one, the new entry's index
  list has all 16 slots at \<open>-1\<close>, and the entries before it are unchanged.
\<close>

theorem network_decode_capacity:
  "(network_count app \<ge> MAX_NETWORKS \<longrightarrow> parse_network_message app data = Inr app)
   \<and> (0 \<le> network_count app \<and> network_count app < MAX_NETWORKS
        \<and> length (networks app) = 64 \<and> network_message_valid data \<longrightarrow>
      (\<exists>app'. parse_network_message app data = Inr app'
         \<and> network_count app' = network_count app + 1
         \<and> length (networks app') = 64
         \<and> client_indices (networks app' ! nat (network_count app)) = replicate 16 (- 1)
         \<and> (\<forall>i < nat (network_count app). networks app' ! i = networks app ! i)))"
proof (intro conjI impI)
  assume "network_count app \<ge> MAX_NETWORKS"
  then show "parse_network_message app data = Inr app"
    by (simp add: parse_network_message_def)
next
  assume a: "0 \<le> network_count app \<and> network_count app < MAX_NETWORKS
        \<and> length (networks app) = 64 \<and> network_message_valid data"
  let ?r = "parse_network_fields (sep_to_pipe (take 127 data))"
  from a have c: "snd ?r" "client_indices (fst ?r) = replicate 16 (- 1)"
    using parse_network_fields_complete [of "sep_to_pipe (take 127 data)"]
    by (simp_all add: network_message_valid_def)
  from a have n: "nat (network_count app) < length (networks app)" by auto
  from a c n show "\<exists>app'. parse_network_message app data = Inr app'
         \<and> network_count app' = network_count app + 1
         \<and> length (networks app') = 64
         \<and> client_indices (networks app' ! nat (network_count app)) = replicate 16 (- 1)
         \<and> (\<forall>i < nat (network_count app). networks app' ! i = networks app ! i)"
    by (simp add: parse_network_message_def arr_set_def Let_def case_prod_unfold)
qed

theorem network_decode_capacity_witness:
  "(network_count (zero_App\<lparr>network_count := 64\<rparr>) \<ge> MAX_NETWORKS
    \<and> parse_network_message (zero_App\<lparr>network_count := 64\<rparr>)
         ''3|MyAP|AA:BB:CC:DD:EE:FF|6|-42|2|0|WPA2-AES|0|0''
       = Inr (zero_App\<lparr>network_count := 64\<rparr>))
   \<and> (0 \<le> network_count zero_App \<and> network_count zero_App < MAX_NETWORKS
      \<and> length (networks zero_App) = 64
      \<and> network_message_valid ''3|MyAP|AA:BB:CC:DD:EE:FF|6|-42|2|0|WPA2-AES|0|0''
      \<and> (\<exists>app'. parse_network_message zero_App
                   ''3|MyAP|AA:BB:CC:DD:EE:FF|6|-42|2|0|WPA2-AES|0|0'' = Inr app'
            \<and> network_count app' = network_count zero_App + 1
            \<and> length (networks app') = 64
            \<and> client_indices (networks app' ! nat (network_count zero_App)) = replicate 16 (- 1)
            \<and> (\<forall>i < nat (network_count zero_App). networks app' ! i = networks zero_App ! i)))"
proof -
  let ?body = "''3|MyAP|AA:BB:CC:DD:EE:FF|6|-42|2|0|WPA2-AES|0|0''"
  have full: "network_count (zero_App\<lparr>network_count := 64\<rparr>) \<ge> MAX_NETWORKS" by simp
  have free: "0 \<le> network_count zero_App \<and> network_count zero_App < MAX_NETWORKS
      \<and> length (networks zero_App) = 64 \<and> network_message_valid ?body"
    using scenario_body_valid by (simp add: zero_App_def)
  from full network_decode_capacity [of "zero_App\<lparr>network_count := 64\<rparr>" ?body]
  have 1: "parse_network_message (zero_App\<lparr>network_count := 64\<rparr>) ?body
       = Inr (zero_App\<lparr>network_count := 64\<rparr>)" by blast
  from free network_decode_capacity [of zero_App ?body]
  have 2: "\<exists>app'. parse_network_message zero_App ?body = Inr app'
            \<and> network_count app' = network_count zero_App + 1
            \<and> length (networks app') = 64
            \<and> client_indices (networks app' ! nat (network_count zero_App)) = replicate 16 (- 1)
            \<and> (\<forall>i < nat (network_count zero_App). networks app' ! i = networks zero_App ! i)"
    by blast
  from full free 1 2 show ?thesis by blast
qed

subsection \<open>Credential log\<close>

lemma cstr_take: "take (length (cstr buf)) buf = cstr buf"
  unfolding cstr_def by (rule takeWhile_eq_take [symmetric])

lemma cstr_no_NUL: "NUL \<notin> set (cstr buf)"
  unfolding cstr_def by (auto dest: set_takeWhileD)

lemma credentials_append_ok:
  assumes ok: "creds_ok creds" and line: "NUL \<notin> set line"
  shows "\<exists>creds'. credentials_append creds line = Inr creds' \<and> creds_ok creds'
          \<and> (if length (cstr creds) + length line + 2 < CREDENTIALS_SIZE
              then cstr creds' = cstr creds @ line @ [CHR 0x0A]
              else creds' = creds)"
proof -
  let ?cur = "length (cstr creds)"
  from ok have len: "length creds = 512" and nul: "NUL \<in> set creds" and cur: "?cur \<le> 510"
    by (simp_all add: creds_ok_def)
  have space: "nat ((int CREDENTIALS_SIZE - int ?cur - 2) mod 2 ^ 32) = 510 - ?cur"
    using cur by simp
  show ?thesis
  proof (cases "?cur + length line + 2 < CREDENTIALS_SIZE")
    case False
    then have ge: "\<not> length line < 510 - ?cur" by simp
    have "credentials_append creds line = Inr creds"
      unfolding credentials_append_def Let_def space using nul ge by simp
    with ok False show ?thesis by simp
  next
    case True
    let ?new = "take ?cur creds @ line @ [CHR 0x0A, NUL] @ drop (?cur + length line + 2) creds"
    from True have lt: "length line < 510 - ?cur" by simp
    from True len have app: "credentials_append creds line = Inr ?new"
      unfolding credentials_append_def Let_def space using nul lt by simp
    have pre: "\<And>x. x \<in> set (cstr creds @ line @ [CHR 0x0A]) \<Longrightarrow> x \<noteq> NUL"
      using cstr_no_NUL [of creds] line by auto
    have "?new = (cstr creds @ line @ [CHR 0x0A]) @ NUL # drop (?cur + length line + 2) creds"
      by (simp add: cstr_take)
    then have "cstr ?new = takeWhile (\<lambda>c. c \<noteq> NUL)
        ((cstr creds @ line @ [CHR 0x0A]) @ NUL # drop (?cur + length line + 2) creds)"
      by (simp only: cstr_def)
    also have "\<dots> = cstr creds @ line @ [CHR 0x0A]"
      using pre by (subst takeWhile_append2) auto
    finally have c: "cstr ?new = cstr creds @ line @ [CHR 0x0A]" .
    have l: "length ?new = 512" using True len by simp
    have "creds_ok ?new"
      using c l True by (simp add: creds_ok_def)
    with app c True show ?thesis by simp
  qed
qed

text \<open>
  Claim C10. Appending a captured credential, from a binary \<^verbatim>\<open>C\<close> message or from a
  legacy \<^verbatim>\<open>EV:\<close> line, is all or nothing: the log afterwards is either exactly the old
  log or its text is the old text followed by the whole new line and a newline; when the
  line plus its newline does not fit into the room left, the log is unchanged; and the log
  keeps its size of 512 bytes with a terminator inside. Nothing else in the state changes.
\<close>

theorem credential_append_all_or_nothing:
  assumes "creds_ok (credentials app)" and "NUL \<notin> set data"
  shows "(\<exists>creds'. parse_credential_message app data = Inr (app\<lparr>credentials := creds'\<rparr>)
            \<and> creds_ok creds'
            \<and> (creds' = credentials app
                \<or> cstr creds' = cstr (credentials app) @ sep_to_pipe (take 255 data) @ [CHR 0x0A])
            \<and> (creds_remaining (credentials app) < length (sep_to_pipe (take 255 data)) + 1
                \<longrightarrow> creds' = credentials app))
       \<and> (\<exists>creds'. process_rx_line app (''EV:'' @ data) = Inr (app\<lparr>credentials := creds'\<rparr>)
            \<and> creds_ok creds'
            \<and> (creds' = credentials app \<or> cstr creds' = cstr (credentials app) @ data @ [CHR 0x0A])
            \<and> (creds_remaining (credentials app) < length data + 1 \<longrightarrow> creds' = credentials app))"
proof (rule conjI)
  let ?buffer = "sep_to_pipe (take 255 data)"
  have "NUL \<notin> set ?buffer"
    using assms(2) by (auto simp: sep_to_pipe_def dest: in_set_takeD)
  from credentials_append_ok [OF assms(1) this] obtain creds' where
    c: "credentials_append (credentials app) ?buffer = Inr creds'" "creds_ok creds'"
      "if length (cstr (credentials app)) + length ?buffer + 2 < CREDENTIALS_SIZE
       then cstr creds' = cstr (credentials app) @ ?buffer @ [CHR 0x0A]
       else creds' = credentials app" by blast
  have "parse_credential_message app data = Inr (app\<lparr>credentials := creds'\<rparr>)"
    using c(1) by (simp add: parse_credential_message_def)
  moreover have "creds' = credentials app
      \<or> cstr creds' = cstr (credentials app) @ ?buffer @ [CHR 0x0A]"
    using c(3) by (simp split: if_splits)
  moreover have "creds_remaining (credentials app) < length ?buffer + 1
      \<longrightarrow> creds' = credentials app"
    using c(3) by (simp add: creds_remaining_def split: if_splits)
  ultimately show "\<exists>creds'. parse_credential_message app data = Inr (app\<lparr>credentials := creds'\<rparr>)
            \<and> creds_ok creds'
            \<and> (creds' = credentials app
                \<or> cstr creds' = cstr (credentials app) @ ?buffer @ [CHR 0x0A])
            \<and> (creds_remaining (credentials app) < length ?buffer + 1
                \<longrightarrow> creds' = credentials app)"
    using c(2) by blast
next
  from credentials_append_ok [OF assms] obtain creds' where
    c: "credentials_append (credentials app) data = Inr creds'" "creds_ok creds'"
      "if length (cstr (credentials app)) + length data + 2 < CREDENTIALS_SIZE
       then cstr creds' = cstr (credentials app) @ data @ [CHR 0x0A]
       else creds' = credentials app" by blast
  have "process_rx_line app (''EV:'' @ data) = Inr (app\<lparr>credentials := creds'\<rparr>)"
    using c(1) by (simp add: process_rx_line_def strncmp_eq_def)
  moreover have "creds' = credentials app
      \<or> cstr creds' = cstr (credentials app) @ data @ [CHR 0x0A]"
    using c(3) by (simp split: if_splits)
  moreover have "creds_remaining (credentials app) < length data + 1
      \<longrightarrow> creds' = credentials app"
    using c(3) by (simp add: creds_remaining_def split: if_splits)
  ultimately show "\<exists>creds'. process_rx_line app (''EV:'' @ data) = Inr (app\<lparr>credentials := creds'\<rparr>)
            \<and> creds_ok creds'
            \<and> (creds' = credentials app \<or> cstr creds' = cstr (credentials app) @ data @ [CHR 0x0A])
            \<and> (creds_remaining (credentials app) < length data + 1 \<longrightarrow> creds' = credentials app)"
    using c(2) by blast
qed

lemma zero_creds_ok: "creds_ok (credentials zero_App)"
  by (simp add: creds_ok_def zero_App_def cstr_def)

theorem credential_append_all_or_nothing_witness:
  "creds_ok (credentials zero_App) \<and> NUL \<notin> set ''admin|hunter2''
   \<and> (\<exists>creds'. parse_credential_message zero_App ''admin|hunter2''
                  = Inr (zero_App\<lparr>credentials := creds'\<rparr>)
         \<and> creds_ok creds'
         \<and> (creds' = credentials zero_App
             \<or> cstr creds' = cstr (credentials zero_App) @ sep_to_pipe (take 255 ''admin|hunter2'')
                              @ [CHR 0x0A]))"
proof -
  have n: "NUL \<notin> set ''admin|hunter2''" by simp
  from credential_append_all_or_nothing [OF zero_creds_ok n] zero_creds_ok n
  show ?thesis by blast
qed

subsection \<open>Deauth round trip on the native firmware\<close>

lemma deauth_status_message:
  "process_rx_message app (CHR ''d'' # body) len = Inr app"
  by (simp add: process_rx_message_def Let_def)

lemma clear_deauth_flags_nth:
  assumes "cnt \<le> int (length nets)" and "0 \<le> i" and "i < cnt"
  shows "\<exists>nets'. clear_deauth_flags nets cnt = Inr nets' \<and> \<not> deauth_active (nets' ! nat i)"
proof -
  from assms have "nat i < nat cnt" "nat cnt \<le> length nets" by auto
  then show ?thesis using assms
    by (simp add: clear_deauth_flags_def nth_append)
qed

text \<open>
  Claim C9. In a session on the native firmware, with a selected network inside the
  inventory whose attack is not running: \<^verbatim>\<open>do_deauth\<close> sends the LED command and the
  deauth-by-id command in binary frames and the network's active-deauth flag is true;
  decoding a deauth-status message (tag \<^verbatim>\<open>d\<close>, any body) leaves the state, and so the
  flag, as it is; the next \<^verbatim>\<open>do_deauth\<close> sends the stop command and the flag is false;
  it stays false after the \<^verbatim>\<open>d\<close> confirmation and after the stop-all confirmation
  (tag \<^verbatim>\<open>x\<close>).
\<close>

theorem deauth_round_trip:
  assumes "connected app" and "serial_open app" and "uart_running app"
    and "firmware_type app = FirmwareGattrose"
    and "0 \<le> selected_network app" and "selected_network app < network_count app"
    and "network_count app \<le> int (length (networks app))"
    and "\<not> deauth_active (networks app ! nat (selected_network app))"
  shows "\<exists>app1 app2.
      do_deauth app = Inr app1
    \<and> tx app1 = tx app @ frame ''r3'' @ frame (deauth_by_id_command app)
    \<and> deauth_active (networks app1 ! nat (selected_network app))
    \<and> process_rx_message app1 (CHR ''d'' # ack) len = Inr app1
    \<and> do_deauth app1 = Inr app2
    \<and> tx app2 = tx app1 @ frame ''ds'' @ frame ''r0,255,0''
    \<and> \<not> deauth_active (networks app2 ! nat (selected_network app))
    \<and> process_rx_message app2 (CHR ''d'' # stopped) len' = Inr app2
    \<and> (\<exists>app3. process_rx_message app2 (CHR ''x'' # confirm) len'' = Inr app3
          \<and> \<not> deauth_active (networks app3 ! nat (selected_network app)))"
proof -
  let ?sel = "nat (selected_network app)"
  let ?net = "networks app ! ?sel"
  let ?app1 = "(uart_send (uart_send app ''r3'') (deauth_by_id_command app))
                 \<lparr>networks := (networks app)[?sel := ?net\<lparr>deauth_active := True\<rparr>]\<rparr>"
  let ?app2 = "(uart_send (uart_send ?app1 ''ds'') ''r0,255,0'')
                 \<lparr>networks := (networks ?app1)[?sel := (networks ?app1 ! ?sel)\<lparr>deauth_active := False\<rparr>]\<rparr>"
  from assms have sel: "?sel < length (networks app)" by auto
  have 1: "do_deauth app = Inr ?app1"
    using assms sel
    by (simp add: do_deauth_def arr_get_def Let_def deauth_by_id_command_def uart_send_def)
  have t1: "tx ?app1 = tx app @ frame ''r3'' @ frame (deauth_by_id_command app)"
    using assms by (simp add: uart_send_def frame_def)
  have f1: "deauth_active (networks ?app1 ! ?sel)"
    using sel by (simp add: uart_send_def)
  have 2: "do_deauth ?app1 = Inr ?app2"
    using assms sel
    by (simp add: do_deauth_def arr_get_def Let_def uart_send_def)
  have t2: "tx ?app2 = tx ?app1 @ frame ''ds'' @ frame ''r0,255,0''"
    using assms by (simp add: uart_send_def frame_def)
  have f2: "\<not> deauth_active (networks ?app2 ! ?sel)"
    using sel by (simp add: uart_send_def)
  have 3: "\<exists>app3. process_rx_message ?app2 (CHR ''x'' # confirm) len'' = Inr app3
          \<and> \<not> deauth_active (networks app3 ! ?sel)"
  proof (cases "len'' < 1")
    case True
    then show ?thesis using f2 by (simp add: process_rx_message_def)
  next
    case False
    have "network_count ?app2 \<le> int (length (networks ?app2))"
      "0 \<le> selected_network app" "selected_network app < network_count ?app2"
      using assms by (simp_all add: uart_send_def)
    from clear_deauth_flags_nth [OF this] obtain nets' where
      "clear_deauth_flags (networks ?app2) (network_count ?app2) = Inr nets'"
      "\<not> deauth_active (nets' ! ?sel)" by blast
    with False show ?thesis by (simp add: process_rx_message_def Let_def)
  qed
  from 1 t1 f1 2 t2 f2 3 deauth_status_message show ?thesis by blast
qed

lemma dec_string_0: "dec_string 0 = ''0''"
proof -
  have "nat_digits 0 = ''0''" by (subst nat_digits.simps) (simp add: digit_char_def)
  then show ?thesis by (simp add: dec_string_def)
qed

lemma native_session_command: "deauth_by_id_command native_session = ''d0''"
  by (simp add: deauth_by_id_command_def native_session_def zero_App_def zero_Network_def
      snprintf_buf_def dec_string_0)

theorem deauth_round_trip_witness:
  "connected native_session \<and> serial_open native_session \<and> uart_running native_session
   \<and> firmware_type native_session = FirmwareGattrose
   \<and> 0 \<le> selected_network native_session
   \<and> selected_network native_session < network_count native_session
   \<and> network_count native_session \<le> int (length (networks native_session))
   \<and> \<not> deauth_active (networks native_session ! nat (selected_network native_session))
   \<and> (\<exists>app1 app2.
          do_deauth native_session = Inr app1
        \<and> tx app1 = frame ''r3'' @ frame ''d0''
        \<and> deauth_active (networks app1 ! 0)
        \<and> process_rx_message app1 (CHR ''d'' # ''DEAUTH:0'') 9 = Inr app1
        \<and> do_deauth app1 = Inr app2
        \<and> \<not> deauth_active (networks app2 ! 0)
        \<and> process_rx_message app2 (CHR ''d'' # ''STOPPED'') 8 = Inr app2)"
proof -
  have h: "connected native_session" "serial_open native_session" "uart_running native_session"
    "firmware_type native_session = FirmwareGattrose"
    "0 \<le> selected_network native_session"
    "selected_network native_session < network_count native_session"
    "network_count native_session \<le> int (length (networks native_session))"
    "\<not> deauth_active (networks native_session ! nat (selected_network native_session))"
    by (simp_all add: native_session_def zero_App_def zero_Network_def)
  have s: "nat (selected_network native_session) = 0" "tx native_session = []"
    by (simp_all add: native_session_def zero_App_def)
  from deauth_round_trip [OF h, of "''DEAUTH:0''" 9 "''STOPPED''" 8 "[]" 1]
  show ?thesis using h by (simp add: native_session_command s) blast
qed

subsection \<open>Byte framer\<close>

lemma keeps_line_Inr [simp]:
  "keeps_line app (Inr app') = (rx_line app' = rx_line app \<and> rx_pos app' = rx_pos app)"
  by (simp add: keeps_line_def)

lemma keeps_line_Inl [simp]: "keeps_line app (Inl e) = (e \<noteq> RxLineOverrun)"
  by (simp add: keeps_line_def)

lemma arr_set_fault: "arr_set xs i v = Inl e \<Longrightarrow> e = IndexOutOfRange"
  by (simp add: arr_set_def split: if_splits)

lemma arr_get_fault: "arr_get xs i = Inl e \<Longrightarrow> e = IndexOutOfRange"
  by (simp add: arr_get_def split: if_splits)

lemma credentials_append_fault: "credentials_append creds line = Inl e \<Longrightarrow> e = CredentialsOverrun"
  by (simp add: credentials_append_def Let_def split: if_splits)


lemma keeps_case_sum:
  assumes "\<And>e. m = Inl e \<Longrightarrow> e \<noteq> RxLineOverrun"
    and "\<And>x. m = Inr x \<Longrightarrow> keeps_line app (f x)"
  shows "keeps_line app (case m of Inl e \<Rightarrow> Inl e | Inr x \<Rightarrow> f x)"
  using assms by (cases m) simp_all

lemma keeps_case_option:
  assumes "m = None \<Longrightarrow> keeps_line app a" and "\<And>x. m = Some x \<Longrightarrow> keeps_line app (f x)"
  shows "keeps_line app (case m of None \<Rightarrow> a | Some x \<Rightarrow> f x)"
  using assms by (cases m) simp_all

lemma keeps_case_prod:
  assumes "\<And>a b. p = (a, b) \<Longrightarrow> keeps_line app (f a b)"
  shows "keeps_line app (case p of (a, b) \<Rightarrow> f a b)"
  using assms by (cases p) simp

lemma keeps_if:
  assumes "c \<Longrightarrow> keeps_line app a" and "\<not> c \<Longrightarrow> keeps_line app b"
  shows "keeps_line app (if c then a else b)"
  using assms by simp

lemma keeps_case_list:
  assumes "m = [] \<Longrightarrow> keeps_line app a" and "\<And>x xs. m = x # xs \<Longrightarrow> keeps_line app (f x xs)"
  shows "keeps_line app (case m of [] \<Rightarrow> a | x # xs \<Rightarrow> f x xs)"
  using assms by (cases m) simp_all

lemmas keeps_intros = keeps_if keeps_case_option keeps_case_prod keeps_case_sum keeps_case_list

lemma keeps_parse_network_message: "keeps_line app (parse_network_message app data)"
  unfolding parse_network_message_def Let_def
  by (intro keeps_intros) (auto dest: arr_set_fault)

lemma keeps_parse_client_message: "keeps_line app (parse_client_message app data)"
  unfolding parse_client_message_def Let_def
  by (intro keeps_intros) (auto dest: arr_set_fault arr_get_fault)

lemma keeps_parse_ble_message: "keeps_line app (parse_ble_message app data)"
  unfolding parse_ble_message_def Let_def
  by (intro keeps_intros) (auto dest: arr_set_fault)

lemma keeps_parse_credential_message: "keeps_line app (parse_credential_message app data)"
  unfolding parse_credential_message_def Let_def
  by (intro keeps_intros) (auto dest: credentials_append_fault)

lemma parse_info_fields_line:
  "rx_line (parse_info_fields app data) = rx_line app"
  "rx_pos (parse_info_fields app data) = rx_pos app"
  by (simp_all add: parse_info_fields_def Let_def split: option.splits)

lemma clear_deauth_flags_fault: "clear_deauth_flags nets cnt = Inl e \<Longrightarrow> e = IndexOutOfRange"
  by (simp add: clear_deauth_flags_def split: if_splits)

lemma keeps_process_rx_message: "keeps_line app (process_rx_message app msg len)"
  unfolding process_rx_message_def Let_def
  by (intro keeps_intros keeps_parse_network_message keeps_parse_client_message
      keeps_parse_ble_message keeps_parse_credential_message)
    (auto simp: parse_info_fields_line dest: clear_deauth_flags_fault)

lemma keeps_process_ap_line: "keeps_line app (process_ap_line app line)"
  unfolding process_ap_line_def Let_def
  by (intro keeps_intros) (auto dest: arr_set_fault)

lemma keeps_process_client_line: "keeps_line app (process_client_line app line)"
  unfolding process_client_line_def Let_def
  by (intro keeps_intros) (auto dest: arr_set_fault arr_get_fault)

lemma keeps_process_rx_line: "keeps_line app (process_rx_line app line)"
  unfolding process_rx_line_def Let_def
  by (intro keeps_intros keeps_process_ap_line keeps_process_client_line)
    (auto dest: credentials_append_fault)


lemma process_rx_message_Inr:
  "process_rx_message app msg len = Inr app' \<Longrightarrow> rx_line app' = rx_line app \<and> rx_pos app' = rx_pos app"
  using keeps_process_rx_message [of app msg len] by simp

lemma process_rx_message_Inl: "process_rx_message app msg len = Inl e \<Longrightarrow> e \<noteq> RxLineOverrun"
  using keeps_process_rx_message [of app msg len] by simp

lemma process_rx_line_Inr:
  "process_rx_line app line = Inr app' \<Longrightarrow> rx_line app' = rx_line app \<and> rx_pos app' = rx_pos app"
  using keeps_process_rx_line [of app line] by simp

lemma process_rx_line_Inl: "process_rx_line app line = Inl e \<Longrightarrow> e \<noteq> RxLineOverrun"
  using keeps_process_rx_line [of app line] by simp

lemma step_ok_dispatch_message:
  assumes "length line = RX_LINE_SIZE"
  shows "step_ok (case process_rx_message (app\<lparr>rx_line := line\<rparr>) msg len of
                    Inl e \<Rightarrow> Inl e | Inr app' \<Rightarrow> Inr (app'\<lparr>rx_pos := 0\<rparr>, im'))"
  using assms
  by (auto simp: step_ok_def framer_ok_def split: sum.splits
      dest: process_rx_message_Inr process_rx_message_Inl)

lemma step_ok_dispatch_line:
  assumes "length line = RX_LINE_SIZE"
  shows "step_ok (case process_rx_line (app\<lparr>rx_line := line, rx_pos := pos\<rparr>) text of
                    Inl e \<Rightarrow> Inl e | Inr app' \<Rightarrow> Inr (app'\<lparr>rx_pos := 0\<rparr>, im'))"
  using assms
  by (auto simp: step_ok_def framer_ok_def split: sum.splits
      dest: process_rx_line_Inr process_rx_line_Inl)

lemma step_ok_Inr [simp]: "step_ok (Inr st') = framer_ok (fst st')"
  by (simp add: step_ok_def)

lemma uart_rx_byte_step_ok:
  assumes "framer_ok app"
  shows "step_ok (uart_rx_byte (app, im) data)"
proof -
  from assms have len: "length (rx_line app) = RX_LINE_SIZE" and pos: "rx_pos app < RX_LINE_SIZE"
    by (simp_all add: framer_ok_def)
  have store: "\<And>p c. p < RX_LINE_SIZE \<Longrightarrow> line_store (rx_line app) p c = Inr ((rx_line app)[p := c])"
    using len by (simp add: line_store_def)
  have load: "\<And>p. p < RX_LINE_SIZE \<Longrightarrow> line_load (rx_line app) p = Inr (rx_line app ! p)"
    using len by (simp add: line_load_def)
  consider (stx) "data = PROTO_STX"
    | (etx) "data \<noteq> PROTO_STX" "data = PROTO_ETX" "im"
    | (frame) "data \<noteq> PROTO_STX" "\<not> (data = PROTO_ETX \<and> im)" "im"
    | (newline) "data \<noteq> PROTO_STX" "\<not> im" "data = CHR 0x0A"
    | (other) "data \<noteq> PROTO_STX" "\<not> im" "data \<noteq> CHR 0x0A"
    by blast
  then show ?thesis
  proof cases
    case stx
    then show ?thesis using len by (simp add: uart_rx_byte_def framer_ok_def)
  next
    case etx
    then show ?thesis
      using step_ok_dispatch_message [where line = "(rx_line app)[rx_pos app := NUL]" and app = app and im' = False] len pos
      by (simp add: uart_rx_byte_def store)
  next
    case frame
    then show ?thesis using len pos
      by (simp add: uart_rx_byte_def store framer_ok_def)
  next
    case newline
    show ?thesis
    proof (cases "rx_pos app > 0")
      case False
      then show ?thesis using newline assms by (simp add: uart_rx_byte_def)
    next
      case True
      show ?thesis
      proof (cases "rx_line app ! (rx_pos app - 1) = CHR 0x0D")
        case cr: True
        show ?thesis
          using newline True cr pos len
            step_ok_dispatch_line [where line = "(rx_line app)[rx_pos app - 1 := NUL]"
              and app = app and pos = "rx_pos app - 1" and im' = False]
          by (simp add: uart_rx_byte_def load store Let_def)
      next
        case nocr: False
        show ?thesis
          using newline True nocr pos len
            step_ok_dispatch_line [where line = "(rx_line app)[rx_pos app := NUL]"
              and app = app and pos = "rx_pos app" and im' = False]
          by (simp add: uart_rx_byte_def load store Let_def)
      qed
    qed
  next
    case other
    then show ?thesis using len pos assms
      by (simp add: uart_rx_byte_def store framer_ok_def)
  qed
qed

lemma uart_rx_byte_ok:
  assumes "framer_ok app"
  shows "uart_rx_byte (app, im) data \<noteq> Inl RxLineOverrun"
    and "uart_rx_byte (app, im) data = Inr st' \<Longrightarrow> framer_ok (fst st')"
  using uart_rx_byte_step_ok [OF assms, of im data]
  by (auto simp: step_ok_def split: sum.splits)

lemma uart_rx_thread_ok:
  assumes "framer_ok (fst st)"
  shows "uart_rx_thread st input \<noteq> Inl RxLineOverrun
       \<and> (\<forall>st'. uart_rx_thread st input = Inr st' \<longrightarrow> framer_ok (fst st'))"
  using assms
proof (induction input arbitrary: st)
  case Nil
  then show ?case by simp
next
  case (Cons b input)
  obtain data acquired where b: "b = (data, acquired)" by (cases b)
  obtain app im where st: "st = (app, im)" by (cases st)
  show ?case
  proof (cases "uart_running (fst st) \<and> acquired")
    case False
    then show ?thesis using Cons b by auto
  next
    case True
    show ?thesis
    proof (cases "uart_rx_byte st data")
      case (Inl e)
      then have "e \<noteq> RxLineOverrun" using uart_rx_byte_ok(1) [of app im data] Cons.prems st by auto
      with Inl True b show ?thesis by simp
    next
      case (Inr st1)
      then have "framer_ok (fst st1)" using uart_rx_byte_ok(2) [of app im data st1] Cons.prems st by auto
      from Cons.IH [OF this] Inr True b show ?thesis by simp
    qed
  qed
qed


lemma cstr_terminated: "cstr (buf[p := NUL]) = cstr (take p buf)"
proof (cases "p < length buf")
  case True
  then have "buf[p := NUL] = take p buf @ NUL # drop (Suc p) buf"
    by (simp add: upd_conv_take_nth_drop)
  then show ?thesis by (auto simp: cstr_def takeWhile_append takeWhile_eq_all_conv [THEN iffD2])
next
  case False
  then have "buf[p := NUL] = buf" by (simp add: list_update_beyond)
  with False show ?thesis by simp
qed

text \<open>
  Claim C8. From a state whose line buffer is in order, for every sequence of received
  bytes (each with the outcome of the lock), the receive loop never reads or writes outside
  the line buffer, and the buffer is in order again in every state it returns. A start
  byte sets the position to 0 and enters frame mode, whatever was accumulated; inside a
  frame a byte that finds the buffer full (position 255) changes nothing, and a byte that
  finds room is stored at the position; an end byte inside a frame writes the terminator
  at the position, hands the buffer and the position to \<^verbatim>\<open>process_rx_message\<close>, and
  leaves frame mode with the position at 0. The string handed over ends within the
  accumulated bytes.
\<close>

theorem framer_never_overruns:
  assumes "framer_ok app"
  shows "uart_rx_thread (app, im) input \<noteq> Inl RxLineOverrun
       \<and> (\<forall>st'. uart_rx_thread (app, im) input = Inr st' \<longrightarrow> framer_ok (fst st'))
       \<and> uart_rx_byte (app, im) PROTO_STX = Inr (app\<lparr>rx_pos := 0\<rparr>, True)
       \<and> (data \<noteq> PROTO_STX \<and> data \<noteq> PROTO_ETX \<and> rx_pos app = RX_LINE_SIZE - 1 \<longrightarrow>
            uart_rx_byte (app, True) data = Inr (app, True))
       \<and> (data \<noteq> PROTO_STX \<and> data \<noteq> PROTO_ETX \<and> rx_pos app < RX_LINE_SIZE - 1 \<longrightarrow>
            uart_rx_byte (app, True) data =
              Inr (app\<lparr>rx_line := (rx_line app)[rx_pos app := data], rx_pos := rx_pos app + 1\<rparr>, True))
       \<and> uart_rx_byte (app, True) PROTO_ETX =
            (case process_rx_message (app\<lparr>rx_line := (rx_line app)[rx_pos app := NUL]\<rparr>)
                    ((rx_line app)[rx_pos app := NUL]) (rx_pos app) of
               Inl e \<Rightarrow> Inl e
             | Inr app' \<Rightarrow> Inr (app'\<lparr>rx_pos := 0\<rparr>, False))
       \<and> cstr ((rx_line app)[rx_pos app := NUL]) = cstr (take (rx_pos app) (rx_line app))"
proof -
  from assms have len: "length (rx_line app) = RX_LINE_SIZE" and pos: "rx_pos app < RX_LINE_SIZE"
    by (simp_all add: framer_ok_def)
  have store: "\<And>c. line_store (rx_line app) (rx_pos app) c = Inr ((rx_line app)[rx_pos app := c])"
    using len pos by (simp add: line_store_def)
  have a: "uart_rx_thread (app, im) input \<noteq> Inl RxLineOverrun
       \<and> (\<forall>st'. uart_rx_thread (app, im) input = Inr st' \<longrightarrow> framer_ok (fst st'))"
    using uart_rx_thread_ok [of "(app, im)" input] assms by simp
  have b: "uart_rx_byte (app, im) PROTO_STX = Inr (app\<lparr>rx_pos := 0\<rparr>, True)"
    by (simp add: uart_rx_byte_def)
  have c: "data \<noteq> PROTO_STX \<and> data \<noteq> PROTO_ETX \<and> rx_pos app = RX_LINE_SIZE - 1 \<longrightarrow>
            uart_rx_byte (app, True) data = Inr (app, True)"
    by (simp add: uart_rx_byte_def)
  have d: "data \<noteq> PROTO_STX \<and> data \<noteq> PROTO_ETX \<and> rx_pos app < RX_LINE_SIZE - 1 \<longrightarrow>
            uart_rx_byte (app, True) data =
              Inr (app\<lparr>rx_line := (rx_line app)[rx_pos app := data], rx_pos := rx_pos app + 1\<rparr>, True)"
    by (simp add: uart_rx_byte_def store)
  have e: "uart_rx_byte (app, True) PROTO_ETX =
            (case process_rx_message (app\<lparr>rx_line := (rx_line app)[rx_pos app := NUL]\<rparr>)
                    ((rx_line app)[rx_pos app := NUL]) (rx_pos app) of
               Inl e \<Rightarrow> Inl e
             | Inr app' \<Rightarrow> Inr (app'\<lparr>rx_pos := 0\<rparr>, False))"
    by (simp add: uart_rx_byte_def store)
  from a b c d e cstr_terminated show ?thesis by blast
qed

lemma zero_App_framer_ok: "framer_ok zero_App"
  by (simp add: framer_ok_def zero_App_def)

theorem framer_never_overruns_witness:
  "framer_ok zero_App
   \<and> uart_rx_thread (zero_App, False)
        [(PROTO_STX, True), (CHR ''e'', True), (CHR ''!'', False), (PROTO_ETX, True)]
       \<noteq> Inl RxLineOverrun
   \<and> uart_rx_byte (zero_App, False) PROTO_STX = Inr (zero_App\<lparr>rx_pos := 0\<rparr>, True)
   \<and> uart_rx_byte (zero_App, True) (CHR ''e'') =
        Inr (zero_App\<lparr>rx_line := (rx_line zero_App)[rx_pos zero_App := CHR ''e''],
                      rx_pos := rx_pos zero_App + 1\<rparr>, True)
   \<and> framer_ok (zero_App\<lparr>rx_pos := 255\<rparr>)
   \<and> uart_rx_byte (zero_App\<lparr>rx_pos := 255\<rparr>, True) (CHR ''e'') =
        Inr (zero_App\<lparr>rx_pos := 255\<rparr>, True)"
proof -
  have full: "framer_ok (zero_App\<lparr>rx_pos := 255\<rparr>)"
    by (simp add: framer_ok_def zero_App_def)
  have r: "rx_pos zero_App < RX_LINE_SIZE - 1" "rx_pos (zero_App\<lparr>rx_pos := 255\<rparr>) = RX_LINE_SIZE - 1"
    by (simp_all add: zero_App_def)
  have ne: "CHR ''e'' \<noteq> PROTO_STX \<and> CHR ''e'' \<noteq> PROTO_ETX" by simp
  from framer_never_overruns [OF zero_App_framer_ok, of False
      "[(PROTO_STX, True), (CHR ''e'', True), (CHR ''!'', False), (PROTO_ETX, True)]" "CHR ''e''"]
    framer_never_overruns [OF full, of True "[]" "CHR ''e''"]
    zero_App_framer_ok full r ne
  show ?thesis by blast
qed

text \<open>
  A whole frame. When the loop is running and the bytes between the start byte and the end
  byte contain neither of the two and fit the buffer, the loop stores them from position 0,
  terminates them, and hands them to \<^verbatim>\<open>process_rx_message\<close> with their length.
\<close>

lemma frame_byte_stored:
  assumes "length (rx_line app) = RX_LINE_SIZE" and "rx_pos app < RX_LINE_SIZE - 1"
    and "c \<noteq> PROTO_STX" and "c \<noteq> PROTO_ETX"
  shows "uart_rx_byte (app, True) c =
           Inr (app\<lparr>rx_line := (rx_line app)[rx_pos app := c], rx_pos := rx_pos app + 1\<rparr>, True)"
  using assms by (simp add: uart_rx_byte_def line_store_def)

lemma frame_accumulate:
  assumes "length (rx_line app) = RX_LINE_SIZE" and "uart_running app"
    and "\<forall>c\<in>set msg. c \<noteq> PROTO_STX \<and> c \<noteq> PROTO_ETX"
    and "rx_pos app + length msg \<le> RX_LINE_SIZE - 1"
  shows "uart_rx_thread (app, True) (map (\<lambda>c. (c, True)) msg @ rest) =
           uart_rx_thread
             (app\<lparr>rx_line := take (rx_pos app) (rx_line app) @ msg
                                @ drop (rx_pos app + length msg) (rx_line app),
                   rx_pos := rx_pos app + length msg\<rparr>, True) rest"
  using assms
proof (induction msg arbitrary: app)
  case Nil
  then show ?case by simp
next
  case (Cons c msg)
  let ?app1 = "app\<lparr>rx_line := (rx_line app)[rx_pos app := c], rx_pos := rx_pos app + 1\<rparr>"
  from Cons.prems have step: "uart_rx_byte (app, True) c = Inr (?app1, True)"
    by (intro frame_byte_stored) auto
  have p: "rx_pos app < length (rx_line app)" using Cons.prems by simp
  have upd: "take (rx_pos ?app1) (rx_line ?app1) @ msg @ drop (rx_pos ?app1 + length msg) (rx_line ?app1)
      = take (rx_pos app) (rx_line app) @ (c # msg) @ drop (rx_pos app + length (c # msg)) (rx_line app)"
    using p by (simp add: take_Suc_conv_app_nth)
  have "uart_rx_thread (?app1, True) (map (\<lambda>c. (c, True)) msg @ rest) =
      uart_rx_thread
             (?app1\<lparr>rx_line := take (rx_pos ?app1) (rx_line ?app1) @ msg
                                @ drop (rx_pos ?app1 + length msg) (rx_line ?app1),
                   rx_pos := rx_pos ?app1 + length msg\<rparr>, True) rest"
    using Cons.prems by (intro Cons.IH) auto
  then show ?case using step Cons.prems(2) upd by simp
qed

lemma frame_received:
  assumes len: "length (rx_line app) = RX_LINE_SIZE" and run: "uart_running app"
    and msg: "\<forall>c\<in>set msg. c \<noteq> PROTO_STX \<and> c \<noteq> PROTO_ETX"
    and fit: "length msg \<le> RX_LINE_SIZE - 1"
  shows "uart_rx_thread (app, im) (map (\<lambda>c. (c, True)) (PROTO_STX # msg @ [PROTO_ETX])) =
           (case process_rx_message
                   (app\<lparr>rx_pos := length msg,
                        rx_line := msg @ NUL # drop (length msg + 1) (rx_line app)\<rparr>)
                   (msg @ NUL # drop (length msg + 1) (rx_line app)) (length msg) of
              Inl e \<Rightarrow> Inl e
            | Inr app' \<Rightarrow> Inr (app'\<lparr>rx_pos := 0\<rparr>, False))"
proof -
  let ?app0 = "app\<lparr>rx_pos := 0\<rparr>"
  let ?buf = "msg @ drop (length msg) (rx_line app)"
  let ?app1 = "?app0\<lparr>rx_line := ?buf, rx_pos := length msg\<rparr>"
  have s0: "uart_rx_byte (app, im) PROTO_STX = Inr (?app0, True)"
    by (simp add: uart_rx_byte_def)
  have acc: "uart_rx_thread (?app0, True) (map (\<lambda>c. (c, True)) msg @ [(PROTO_ETX, True)]) =
      uart_rx_thread (?app1, True) [(PROTO_ETX, True)]"
    using frame_accumulate [of ?app0 msg "[(PROTO_ETX, True)]"] len run msg fit by simp
  have lb: "length ?buf = RX_LINE_SIZE" using len fit by simp
  have st: "?buf[length msg := NUL] = msg @ NUL # drop (length msg + 1) (rx_line app)"
    using len fit by (simp add: list_update_append Cons_nth_drop_Suc [symmetric])
  have etx: "uart_rx_byte (?app1, True) PROTO_ETX =
      (case process_rx_message (?app1\<lparr>rx_line := ?buf[length msg := NUL]\<rparr>)
              (?buf[length msg := NUL]) (length msg) of
         Inl e \<Rightarrow> Inl e | Inr app' \<Rightarrow> Inr (app'\<lparr>rx_pos := 0\<rparr>, False))"
    using lb fit by (simp add: uart_rx_byte_def line_store_def)
  show ?thesis
    using s0 acc etx run unfolding st
    by (simp split: sum.splits)
qed

text \<open>
  The network frame of the scenario, received byte by byte: the loop returns the state with
  the new Network, outside frame mode and with the position at 0.
\<close>

lemma network_frame_received:
  assumes "length (rx_line app) = RX_LINE_SIZE" and "uart_running app"
      and "0 \<le> network_count app" and "network_count app < MAX_NETWORKS"
      and "length (networks app) = 64"
  shows "uart_rx_thread (app, im)
           (map (\<lambda>c. (c, True))
              (PROTO_STX # (CHR ''n'' # ''3|MyAP|AA:BB:CC:DD:EE:FF|6|-42|2|0|WPA2-AES|0|0'')
                 @ [PROTO_ETX])) =
         Inr (app\<lparr>rx_line := (CHR ''n'' # ''3|MyAP|AA:BB:CC:DD:EE:FF|6|-42|2|0|WPA2-AES|0|0'')
                               @ NUL # drop 49 (rx_line app),
                  networks := (networks app)[nat (network_count app) :=
                     \<lparr>net_id = 3, ssid = ''MyAP'', bssid = ''AA:BB:CC:DD:EE:FF'', channel = 6,
                      net_rssi = - 42, security = 0, is_5ghz = False, deauth_active = False,
                      net_client_count = 0, client_indices = replicate 16 (- 1),
                      security_str = ''WPA2-AES'', has_pmf = False, hidden = False\<rparr>],
                  network_count := network_count app + 1,
                  rx_pos := 0\<rparr>, False)"
proof -
  define msg where "msg = CHR ''n'' # ''3|MyAP|AA:BB:CC:DD:EE:FF|6|-42|2|0|WPA2-AES|0|0''"
  have l: "length msg = 48" and m: "\<forall>c\<in>set msg. c \<noteq> PROTO_STX \<and> c \<noteq> PROTO_ETX"
    by (simp_all add: msg_def)
  have "uart_rx_thread (app, im) (map (\<lambda>c. (c, True)) (PROTO_STX # msg @ [PROTO_ETX])) =
           (case process_rx_message
                   (app\<lparr>rx_pos := length msg,
                        rx_line := msg @ NUL # drop (length msg + 1) (rx_line app)\<rparr>)
                   (msg @ NUL # drop (length msg + 1) (rx_line app)) (length msg) of
              Inl e \<Rightarrow> Inl e
            | Inr app' \<Rightarrow> Inr (app'\<lparr>rx_pos := 0\<rparr>, False))"
    using assms(1,2) m l by (intro frame_received) simp_all
  also have "\<dots> = Inr (app\<lparr>rx_line := msg @ NUL # drop 49 (rx_line app),
                  networks := (networks app)[nat (network_count app) :=
                     \<lparr>net_id = 3, ssid = ''MyAP'', bssid = ''AA:BB:CC:DD:EE:FF'', channel = 6,
                      net_rssi = - 42, security = 0, is_5ghz = False, deauth_active = False,
                      net_client_count = 0, client_indices = replicate 16 (- 1),
                      security_str = ''WPA2-AES'', has_pmf = False, hidden = False\<rparr>],
                  network_count := network_count app + 1,
                  rx_pos := 0\<rparr>, False)"
    unfolding l using assms(3-5) unfolding msg_def
    by (simp add: process_rx_message_def cstr_def parse_network_message_def sep_to_pipe_def
      parse_network_fields_def token_next_def token_init_def atoi_eval Let_def arr_set_def
      fresh_Network_def zero_Network_def)
  finally show ?thesis unfolding msg_def .
qed

subsection \<open>Client counts\<close>

text \<open>
  Claim C2, as stated, fails: the network decoder stores the client count of the message.
  The scenario frame sent with a count of 5 leaves a Network whose client count is 5 while
  its index list has no valid entry.
\<close>

theorem wire_count_counterexample:
  "process_rx_message zero_App
      (CHR ''n'' # ''3|MyAP|AA:BB:CC:DD:EE:FF|6|-42|2|5|WPA2-AES|0|0'' @ [NUL]) 48
     = Inr (zero_App\<lparr>networks := (networks zero_App)[0 := wire_count_network], network_count := 1\<rparr>)
   \<and> net_client_count wire_count_network = 5
   \<and> valid_entries (client_indices wire_count_network) = 0"
  by (simp add: process_rx_message_def cstr_def parse_network_message_def sep_to_pipe_def
      parse_network_fields_def token_next_def token_init_def atoi_eval Let_def arr_set_def
      fresh_Network_def zero_Network_def zero_App_def wire_count_network_def valid_entries_def)

lemma link_append:
  assumes pv: "prefix_valid idxs" and k: "length (takeWhile (\<lambda>x. 0 \<le> x) idxs) < length idxs"
    and c: "(0::int) \<le> c"
  shows "prefix_valid (idxs[length (takeWhile (\<lambda>x. 0 \<le> x) idxs) := c])"
    and "valid_entries (idxs[length (takeWhile (\<lambda>x. 0 \<le> x) idxs) := c]) = valid_entries idxs + 1"
proof -
  let ?P = "\<lambda>x::int. 0 \<le> x"
  let ?t = "takeWhile ?P idxs" and ?d = "dropWhile ?P idxs"
  have split: "idxs = ?t @ ?d" by simp
  have dne: "?d \<noteq> []"
  proof
    assume e: "?d = []"
    have "length idxs = length ?t + length ?d" by (metis length_append split)
    with e k show False by simp
  qed
  then obtain h r where d: "?d = h # r" by (cases ?d) auto
  have "filter ?P idxs = filter ?P ?t @ filter ?P ?d" by (metis filter_append split)
  also have "filter ?P ?t = ?t" by (simp add: filter_id_conv) (meson set_takeWhileD)
  finally have "filter ?P ?d = []" using pv by (simp add: prefix_valid_def)
  with d have r: "filter ?P r = []" by (simp split: if_splits)
  then have tr: "takeWhile ?P r = []" by (cases r) (auto split: if_splits)
  have upd: "idxs[length ?t := c] = ?t @ c # r"
    by (metis d list_update_length split)
  have ft: "filter ?P ?t = ?t" by (simp add: filter_id_conv) (meson set_takeWhileD)
  have all: "\<forall>x\<in>set ?t. ?P x" by (meson set_takeWhileD)
  show "prefix_valid (idxs[length ?t := c])"
    unfolding upd prefix_valid_def using c r tr ft all
    by (simp add: takeWhile_append2)
  show "valid_entries (idxs[length ?t := c]) = valid_entries idxs + 1"
    unfolding upd valid_entries_def using c r ft pv
    by (simp add: prefix_valid_def)
qed


lemma link_step:
  assumes len: "length (client_indices net) = 16" and pv: "prefix_valid (client_indices net)"
    and c: "0 \<le> c" and room: "count_linked (client_indices net) < MAX_CLIENTS_PER_AP"
  shows "\<exists>idxs'. arr_set (client_indices net) (count_linked (client_indices net)) c = Inr idxs'
            \<and> prefix_valid idxs'
            \<and> valid_entries idxs' = valid_entries (client_indices net) + 1
            \<and> count_linked (client_indices net) + 1 = valid_entries idxs'"
proof -
  let ?idxs = "client_indices net"
  let ?k = "length (takeWhile (\<lambda>x. 0 \<le> x) ?idxs)"
  have cl: "count_linked ?idxs = int ?k" using len by (simp add: count_linked_def)
  with room len have k: "?k < length ?idxs" by simp
  have set: "arr_set ?idxs (count_linked ?idxs) c = Inr (?idxs[?k := c])"
    using k by (simp add: arr_set_def cl)
  have ve: "valid_entries ?idxs = int ?k"
    using pv by (simp add: valid_entries_def prefix_valid_def)
  from link_append [OF pv k c] set cl ve show ?thesis by simp
qed

lemma link_step_result:
  assumes "arr_set (client_indices net) (count_linked (client_indices net)) c = Inr idxs'"
    and "length (client_indices net) = 16" and "prefix_valid (client_indices net)"
    and "0 \<le> c" and "count_linked (client_indices net) < MAX_CLIENTS_PER_AP"
  shows "prefix_valid idxs'"
    and "valid_entries idxs' = valid_entries (client_indices net) + 1"
    and "count_linked (client_indices net) + 1 = valid_entries idxs'"
  using link_step [OF assms(2-5)] assms(1) by auto

lemma client_link_post_Inr_same [simp]: "client_link_post app n (Inr app)"
  by (simp add: client_link_post_def)

lemma client_link_post_Inl [simp]: "client_link_post app n (Inl e)"
  by (simp add: client_link_post_def)

lemma post_case_sum:
  assumes "\<And>x. m = Inr x \<Longrightarrow> client_link_post app n (f x)"
  shows "client_link_post app n (case m of Inl e \<Rightarrow> Inl e | Inr x \<Rightarrow> f x)"
  using assms by (cases m) simp_all

lemma post_case_option:
  assumes "m = None \<Longrightarrow> client_link_post app n a"
    and "\<And>x. m = Some x \<Longrightarrow> client_link_post app n (f x)"
  shows "client_link_post app n (case m of None \<Rightarrow> a | Some x \<Rightarrow> f x)"
  using assms by (cases m) simp_all

lemma post_case_prod:
  assumes "\<And>a b. p = (a, b) \<Longrightarrow> client_link_post app n (f a b)"
  shows "client_link_post app n (case p of (a, b) \<Rightarrow> f a b)"
  using assms by (cases p) simp

lemma post_if:
  assumes "c \<Longrightarrow> client_link_post app n a" and "\<not> c \<Longrightarrow> client_link_post app n b"
  shows "client_link_post app n (if c then a else b)"
  using assms by simp

lemma parse_client_message_post:
  assumes c: "0 \<le> client_count app" and n: "n < length (networks app)"
    and len: "length (client_indices (networks app ! n)) = 16"
    and pv: "prefix_valid (client_indices (networks app ! n))"
  shows "client_link_post app n (parse_client_message app cdata)"
  unfolding parse_client_message_def Let_def
proof (intro post_if post_case_option post_case_prod post_case_sum, goal_cases)
  case 1 show ?case by simp
next
  case 2 show ?case by simp
next
  case 3 show ?case by simp
next
  case 4 show ?case by simp
next
  case 5 show ?case by simp
next
  case prems: (6 x a b xa aa ba xb xc xd)
  show ?case
  proof (cases "n = nat (atoi a)")
    case False
    then show ?thesis using n by (simp add: client_link_post_def)
  next
    case True
    with prems n have xc: "xc = networks app ! n"
      by (simp add: arr_get_def split: if_splits)
    from prems have set: "arr_set (client_indices xc) (count_linked (client_indices xc)) (client_count app) = Inr xd"
      and room: "count_linked (client_indices xc) < MAX_CLIENTS_PER_AP" by simp_all
    from link_step_result [OF set _ _ c room] len pv xc
    have r: "prefix_valid xd" "valid_entries xd = valid_entries (client_indices xc) + 1"
      "count_linked (client_indices xc) + 1 = valid_entries xd" by simp_all
    show ?thesis using True n r xc
      by (simp add: client_link_post_def max_def)
  qed
next
  case 7
  show ?case using n by (simp add: client_link_post_def)
qed

text \<open>
  Claim C2, amended. A valid network message decoded while there is room stores the client
  count that was sent (0 when the field is absent) in the new Network, whose index list
  has no valid entry. A decoded client message leaves a Network either as it was, or with
  one more valid entry in its index list and a client count that is the larger of the
  count it had and the number of valid entries of the list; so a client that is linked
  never leaves the count below the list's occupancy, and the count equals the occupancy
  whenever the count sent did not exceed it.
\<close>

theorem client_count_after_decode:
  "(0 \<le> network_count app \<and> network_count app < MAX_NETWORKS
      \<and> length (networks app) = 64 \<and> network_message_valid data \<longrightarrow>
      (\<exists>app'. parse_network_message app data = Inr app'
          \<and> net_client_count (networks app' ! nat (network_count app)) = wire_client_count data
          \<and> valid_entries (client_indices (networks app' ! nat (network_count app))) = 0))
   \<and> (0 \<le> client_count capp \<and> n < length (networks capp)
        \<and> length (client_indices (networks capp ! n)) = 16
        \<and> prefix_valid (client_indices (networks capp ! n))
        \<and> parse_client_message capp cdata = Inr app1 \<longrightarrow>
        networks app1 ! n = networks capp ! n
        \<or> (prefix_valid (client_indices (networks app1 ! n))
            \<and> valid_entries (client_indices (networks app1 ! n))
                = valid_entries (client_indices (networks capp ! n)) + 1
            \<and> net_client_count (networks app1 ! n)
                = max (net_client_count (networks capp ! n))
                      (valid_entries (client_indices (networks app1 ! n)))))"
proof (intro conjI impI)
  assume a: "0 \<le> network_count app \<and> network_count app < MAX_NETWORKS
      \<and> length (networks app) = 64 \<and> network_message_valid data"
  let ?r = "parse_network_fields (sep_to_pipe (take 127 data))"
  from a have c: "snd ?r" "client_indices (fst ?r) = replicate 16 (- 1)"
    "net_client_count (fst ?r) = wire_client_count data"
    using parse_network_fields_complete [of "sep_to_pipe (take 127 data)"]
    by (simp_all add: network_message_valid_def wire_client_count_def Let_def)
  from a have n: "nat (network_count app) < length (networks app)" by auto
  from a c n show "\<exists>app'. parse_network_message app data = Inr app'
          \<and> net_client_count (networks app' ! nat (network_count app)) = wire_client_count data
          \<and> valid_entries (client_indices (networks app' ! nat (network_count app))) = 0"
    by (simp add: parse_network_message_def arr_set_def Let_def case_prod_unfold valid_entries_def)
next
  assume a: "0 \<le> client_count capp \<and> n < length (networks capp)
        \<and> length (client_indices (networks capp ! n)) = 16
        \<and> prefix_valid (client_indices (networks capp ! n))
        \<and> parse_client_message capp cdata = Inr app1"
  then have "client_link_post capp n (parse_client_message capp cdata)"
    using parse_client_message_post [of capp n cdata] by simp
  with a show "networks app1 ! n = networks capp ! n
        \<or> (prefix_valid (client_indices (networks app1 ! n))
            \<and> valid_entries (client_indices (networks app1 ! n))
                = valid_entries (client_indices (networks capp ! n)) + 1
            \<and> net_client_count (networks app1 ! n)
                = max (net_client_count (networks capp ! n))
                      (valid_entries (client_indices (networks app1 ! n))))"
    by (simp add: client_link_post_def)
qed

lemma wire_count_body_valid:
  "network_message_valid ''3|MyAP|AA:BB:CC:DD:EE:FF|6|-42|2|5|WPA2-AES|0|0''"
  by (simp add: network_message_valid_def sep_to_pipe_def scan_tokens.simps token_next_def)

lemma wire_count_body_count:
  "wire_client_count ''3|MyAP|AA:BB:CC:DD:EE:FF|6|-42|2|5|WPA2-AES|0|0'' = 5"
  by (simp add: wire_client_count_def sep_to_pipe_def scan_tokens.simps token_next_def atoi_eval)

lemma wire_count_link:
  "parse_client_message wire_count_state ''0|AA:BB:CC:DD:EE:01|-60'' = Inr wire_count_linked_state"
  by (simp add: parse_client_message_def wire_count_state_def wire_count_linked_state_def
      wire_count_network_def zero_App_def zero_Client_def sep_to_pipe_def token_next_def
      token_init_def atoi_eval client_known_def arr_set_def arr_get_def count_linked_def Let_def)

theorem client_count_after_decode_witness:
  "(0 \<le> network_count zero_App \<and> network_count zero_App < MAX_NETWORKS
      \<and> length (networks zero_App) = 64
      \<and> network_message_valid ''3|MyAP|AA:BB:CC:DD:EE:FF|6|-42|2|5|WPA2-AES|0|0''
      \<and> (\<exists>app'. parse_network_message zero_App ''3|MyAP|AA:BB:CC:DD:EE:FF|6|-42|2|5|WPA2-AES|0|0''
                  = Inr app'
          \<and> net_client_count (networks app' ! nat (network_count zero_App)) = 5
          \<and> valid_entries (client_indices (networks app' ! nat (network_count zero_App))) = 0))
   \<and> (0 \<le> client_count wire_count_state \<and> 0 < length (networks wire_count_state)
        \<and> length (client_indices (networks wire_count_state ! 0)) = 16
        \<and> prefix_valid (client_indices (networks wire_count_state ! 0))
        \<and> parse_client_message wire_count_state ''0|AA:BB:CC:DD:EE:01|-60''
            = Inr wire_count_linked_state
        \<and> (networks wire_count_linked_state ! 0 = networks wire_count_state ! 0
            \<or> (prefix_valid (client_indices (networks wire_count_linked_state ! 0))
                \<and> valid_entries (client_indices (networks wire_count_linked_state ! 0))
                    = valid_entries (client_indices (networks wire_count_state ! 0)) + 1
                \<and> net_client_count (networks wire_count_linked_state ! 0)
                    = max (net_client_count (networks wire_count_state ! 0))
                          (valid_entries (client_indices (networks wire_count_linked_state ! 0))))))"
proof -
  let ?body = "''3|MyAP|AA:BB:CC:DD:EE:FF|6|-42|2|5|WPA2-AES|0|0''"
  have h1: "0 \<le> network_count zero_App \<and> network_count zero_App < MAX_NETWORKS
      \<and> length (networks zero_App) = 64 \<and> network_message_valid ?body"
    using wire_count_body_valid by (simp add: zero_App_def)
  have h2: "0 \<le> client_count wire_count_state \<and> 0 < length (networks wire_count_state)
        \<and> length (client_indices (networks wire_count_state ! 0)) = 16
        \<and> prefix_valid (client_indices (networks wire_count_state ! 0))
        \<and> parse_client_message wire_count_state ''0|AA:BB:CC:DD:EE:01|-60''
            = Inr wire_count_linked_state"
    using wire_count_link
    by (simp add: wire_count_state_def wire_count_network_def zero_App_def prefix_valid_def)
  from client_count_after_decode [where app = zero_App and data = ?body]
    client_count_after_decode [where capp = wire_count_state and n = 0
      and cdata = "''0|AA:BB:CC:DD:EE:01|-60''" and ?app1.0 = wire_count_linked_state]
    h1 h2 wire_count_body_count
  show ?thesis by auto
qed

subsection \<open>Duplicate clients\<close>

lemma scan_to_delim:
  "d \<notin> set f \<Longrightarrow> takeWhile (\<lambda>c. c \<noteq> d) (f @ d # rest) = f
     \<and> dropWhile (\<lambda>c. c \<noteq> d) (f @ d # rest) = d # rest"
  by (induction f) auto

lemma scan_to_end:
  "d \<notin> set f \<Longrightarrow> takeWhile (\<lambda>c. c \<noteq> d) f = f \<and> dropWhile (\<lambda>c. c \<noteq> d) f = []"
  by (induction f) auto

lemma token_next_Nil: "token_next [] d = None"
  by (simp add: token_next_def)

lemma token_next_field:
  "d \<notin> set f \<Longrightarrow> token_next (f @ d # rest) d = Some (f, rest)"
  by (simp add: token_next_def scan_to_delim)

lemma token_next_field_end:
  assumes "d \<notin> set f" and "t = [] \<or> hd t = d"
  shows "token_next (f @ t) d = (if f @ t = [] then None else Some (f, drop 1 t))"
proof (cases t)
  case Nil
  with assms show ?thesis by (simp add: token_next_def scan_to_end)
next
  case (Cons a r)
  with assms have "a = d" by simp
  with Cons token_next_field [OF assms(1), of r] show ?thesis by simp
qed

lemma take_beyond_prefix:
  "length xs \<le> n \<Longrightarrow> take n (xs @ ys) = xs @ take (n - length xs) ys"
  by simp

lemma sep_to_pipe_field: "\<forall>c\<in>set f. \<not> is_sep c \<Longrightarrow> sep_to_pipe f = f \<and> CHR ''|'' \<notin> set f"
  by (induction f) (auto simp: sep_to_pipe_def is_sep_def)

lemma sep_to_pipe_tail:
  "t = [] \<or> is_sep (hd t) \<Longrightarrow> sep_to_pipe (take k t) = [] \<or> hd (sep_to_pipe (take k t)) = CHR ''|''"
  by (cases t; cases k) (auto simp: sep_to_pipe_def is_sep_def)

lemma client_message_fields:
  assumes s: "is_sep s" and f: "\<forall>c\<in>set (idx @ m). \<not> is_sep c"
    and t: "tail = [] \<or> is_sep (hd tail)"
    and fit: "length idx + 1 + length m \<le> 63"
  shows "\<exists>rest. sep_to_pipe (take 63 (idx @ s # m @ tail)) = idx @ CHR ''|'' # m @ rest
           \<and> token_next (idx @ CHR ''|'' # m @ rest) (CHR ''|'') = Some (idx, m @ rest)
           \<and> token_next (m @ rest) (CHR ''|'') = (if m @ rest = [] then None else Some (m, drop 1 rest))"
proof -
  define rest where "rest = sep_to_pipe (take (63 - (length idx + 1 + length m)) tail)"
  from f have fi: "sep_to_pipe idx = idx" "CHR ''|'' \<notin> set idx"
    and fm: "sep_to_pipe m = m" "CHR ''|'' \<notin> set m"
    using sep_to_pipe_field [of idx] sep_to_pipe_field [of m] by auto
  have tk: "take 63 (idx @ s # m @ tail)
      = idx @ s # m @ take (63 - (length idx + 1 + length m)) tail"
    using fit take_beyond_prefix [of "idx @ s # m" 63 tail] by simp
  have buf: "sep_to_pipe (take 63 (idx @ s # m @ tail)) = idx @ CHR ''|'' # m @ rest"
    unfolding tk rest_def using fi fm s by (auto simp: sep_to_pipe_def is_sep_def)
  have r: "rest = [] \<or> hd rest = CHR ''|''"
    unfolding rest_def using sep_to_pipe_tail [OF t] by simp
  have t1: "token_next (idx @ CHR ''|'' # m @ rest) (CHR ''|'') = Some (idx, m @ rest)"
    using fi by (intro token_next_field) simp
  have t2: "token_next (m @ rest) (CHR ''|'') = (if m @ rest = [] then None else Some (m, drop 1 rest))"
    using fm r by (intro token_next_field_end) auto
  from buf t1 t2 show ?thesis by blast
qed

lemma known_client_dropped:
  assumes known: "client_known app m"
    and s: "is_sep s" and f: "\<forall>c\<in>set (idx @ m). \<not> is_sep c"
    and t: "tail = [] \<or> is_sep (hd tail)"
    and fit: "length idx + 1 + length m \<le> 63"
  shows "parse_client_message app (idx @ s # m @ tail) = Inr app"
proof -
  from client_message_fields [OF s f t fit] obtain rest where
    buf: "sep_to_pipe (take 63 (idx @ s # m @ tail)) = idx @ CHR ''|'' # m @ rest"
    and t1: "token_next (idx @ CHR ''|'' # m @ rest) (CHR ''|'') = Some (idx, m @ rest)"
    and t2: "token_next (m @ rest) (CHR ''|'') = (if m @ rest = [] then None else Some (m, drop 1 rest))"
    by blast
  show ?thesis
    unfolding parse_client_message_def buf token_init_def Let_def
    using known by (simp add: t1 t2)
qed

lemma new_client_stored:
  assumes s: "is_sep s" and f: "\<forall>c\<in>set (idx @ m). \<not> is_sep c"
    and t: "tail = [] \<or> is_sep (hd tail)"
    and fit: "length idx + 1 + length m \<le> 63"
    and ok: "inventory_ok app"
  shows "\<exists>app'. parse_client_message app (idx @ s # m @ tail) = Inr app'
           \<and> (app' = app
              \<or> client_count app' = client_count app + 1
                \<and> nat (client_count app) < length (clients app')
                \<and> mac (clients app' ! nat (client_count app)) = take (MAX_BSSID_LEN - 1) m)"
proof -
  from client_message_fields [OF s f t fit] obtain rest where
    buf: "sep_to_pipe (take 63 (idx @ s # m @ tail)) = idx @ CHR ''|'' # m @ rest"
    and t1: "token_next (idx @ CHR ''|'' # m @ rest) (CHR ''|'') = Some (idx, m @ rest)"
    and t2: "token_next (m @ rest) (CHR ''|'') = (if m @ rest = [] then None else Some (m, drop 1 rest))"
    by blast
  let ?N = "nat (network_count app)"
  from ok have cc: "0 \<le> client_count app"
    and room: "client_count app < MAX_CLIENTS \<Longrightarrow> nat (client_count app) < length (clients app)"
    and nl: "?N \<le> length (networks app)"
    and il: "\<And>net. net \<in> set (take ?N (networks app)) \<Longrightarrow> length (client_indices net) = 16"
    by (simp_all add: inventory_ok_def)
  from cc room have room': "client_count app < MAX_CLIENTS \<Longrightarrow> client_count app < int (length (clients app))"
    by auto
  have slots: "length (client_indices (networks app ! nat a)) = 16"
    if "0 \<le> a" "a < network_count app" for a
  proof -
    from that nl have "nat a < ?N" "nat a < length (networks app)" by auto
    then have "networks app ! nat a \<in> set (take ?N (networks app))" by (auto intro: nth_in_take)
    then show ?thesis by (rule il)
  qed
  have lk: "count_linked xs < 16 \<Longrightarrow> length xs = 16 \<Longrightarrow> nat (count_linked xs) < length xs" for xs
    by (simp add: count_linked_def)
  have lk0: "0 \<le> count_linked xs" for xs by (simp add: count_linked_def)
  show ?thesis
    unfolding parse_client_message_def buf token_init_def Let_def
    using cc room' nl slots lk lk0
    by (auto simp: t1 t2 arr_set_def arr_get_def)
qed

lemma stored_client_known:
  assumes "nat cc < length cls" and "0 \<le> cc" and "mac (cls ! nat cc) = m"
    and "client_count app = cc + 1" and "clients app = cls"
  shows "client_known app m"
proof -
  have "cls ! nat cc \<in> set (take (nat (cc + 1)) cls)"
    using assms(1,2) by (intro nth_in_take) auto
  with assms show ?thesis by (auto simp: client_known_def list_ex_iff)
qed

lemma decoded_twice:
  assumes s: "is_sep s" and f: "\<forall>c\<in>set (idx @ m). \<not> is_sep c"
    and t: "tail = [] \<or> is_sep (hd tail)"
    and fit: "length idx + 1 + length m \<le> 63"
    and ok: "inventory_ok app" and m: "length m \<le> MAX_BSSID_LEN - 1"
  shows "\<exists>app'. parse_client_message app (idx @ s # m @ tail) = Inr app'
           \<and> (app' = app \<or> client_count app' = client_count app + 1 \<and> client_known app' m)
           \<and> parse_client_message app' (idx @ s # m @ tail) = Inr app'"
proof -
  from new_client_stored [OF s f t fit ok] obtain app' where
    r: "parse_client_message app (idx @ s # m @ tail) = Inr app'"
    and c: "app' = app
              \<or> client_count app' = client_count app + 1
                \<and> nat (client_count app) < length (clients app')
                \<and> mac (clients app' ! nat (client_count app)) = take (MAX_BSSID_LEN - 1) m"
    by blast
  show ?thesis
  proof (cases "app' = app")
    case True
    with r show ?thesis by simp
  next
    case False
    with c have n: "client_count app' = client_count app + 1"
      "nat (client_count app) < length (clients app')"
      "mac (clients app' ! nat (client_count app)) = m"
      using m by simp_all
    from ok have "0 \<le> client_count app" by (simp add: inventory_ok_def)
    from stored_client_known [OF n(2) this n(3) n(1) refl]
    have k: "client_known app' m" .
    from known_client_dropped [OF k s f t fit] r n(1) k show ?thesis by blast
  qed
qed

text \<open>
  Claim C6, as stated, fails at two inputs of the binary decoder. The decoder scans a copy
  of the first 63 bytes of the body: with the MAC 11:22:33:44:55:66 in the Client collection
  and the index field of the message padded to 49 digits, the MAC field is cut to
  11:22:33:44:5, which is not in the collection, and a second Client is stored and linked.
  And a stored MAC holds 17 characters while the scan compares the whole field: the body
  \<^verbatim>\<open>0|AA:BB:CC:DD:EE:FF:99|-33\<close>, whose MAC field has 20 characters, decoded twice from a
  state with one network and no client, stores two Clients with the MAC
  AA:BB:CC:DD:EE:FF and links both.
\<close>

theorem duplicate_client_counterexample:
  "client_known known_client_state ''11:22:33:44:55:66''
   \<and> parse_client_message known_client_state padded_client_message =
       Inr (known_client_state
             \<lparr>clients := (clients known_client_state)
                [1 := \<lparr>mac = ''11:22:33:44:5'', cl_rssi = - 80, ap_index = 0\<rparr>],
              networks := (networks known_client_state)
                [0 := known_client_network
                        \<lparr>client_indices := 0 # 1 # replicate 14 (- 1), net_client_count := 2\<rparr>],
              client_count := 2\<rparr>)
   \<and> parse_client_message lone_network_state ''0|AA:BB:CC:DD:EE:FF:99|-33'' =
       Inr (lone_network_state
             \<lparr>clients := (clients lone_network_state)
                [0 := \<lparr>mac = ''AA:BB:CC:DD:EE:FF'', cl_rssi = - 33, ap_index = 0\<rparr>],
              networks := (networks lone_network_state)
                [0 := known_client_network],
              client_count := 1\<rparr>)
   \<and> parse_client_message
        (lone_network_state
             \<lparr>clients := (clients lone_network_state)
                [0 := \<lparr>mac = ''AA:BB:CC:DD:EE:FF'', cl_rssi = - 33, ap_index = 0\<rparr>],
              networks := (networks lone_network_state)
                [0 := known_client_network],
              client_count := 1\<rparr>)
        ''0|AA:BB:CC:DD:EE:FF:99|-33'' =
       Inr (lone_network_state
             \<lparr>clients := (clients lone_network_state)
                [0 := \<lparr>mac = ''AA:BB:CC:DD:EE:FF'', cl_rssi = - 33, ap_index = 0\<rparr>,
                 1 := \<lparr>mac = ''AA:BB:CC:DD:EE:FF'', cl_rssi = - 33, ap_index = 0\<rparr>],
              networks := (networks lone_network_state)
                [0 := known_client_network
                        \<lparr>client_indices := 0 # 1 # replicate 14 (- 1), net_client_count := 2\<rparr>],
              client_count := 2\<rparr>)"
proof -
  have a: "client_known known_client_state ''11:22:33:44:55:66''"
    by (simp add: client_known_def known_client_state_def zero_App_def numeral_eq_Suc)
  have b: "parse_client_message known_client_state padded_client_message =
       Inr (known_client_state
             \<lparr>clients := (clients known_client_state)
                [1 := \<lparr>mac = ''11:22:33:44:5'', cl_rssi = - 80, ap_index = 0\<rparr>],
              networks := (networks known_client_state)
                [0 := known_client_network
                        \<lparr>client_indices := 0 # 1 # replicate 14 (- 1), net_client_count := 2\<rparr>],
              client_count := 2\<rparr>)"
    by (simp add: known_client_state_def known_client_network_def padded_client_message_def
      parse_client_message_def zero_App_def zero_Client_def sep_to_pipe_def token_next_def
      token_init_def atoi_eval client_known_def arr_set_def arr_get_def count_linked_def Let_def
      numeral_eq_Suc)
  have c: "parse_client_message lone_network_state ''0|AA:BB:CC:DD:EE:FF:99|-33'' =
       Inr (lone_network_state
             \<lparr>clients := (clients lone_network_state)
                [0 := \<lparr>mac = ''AA:BB:CC:DD:EE:FF'', cl_rssi = - 33, ap_index = 0\<rparr>],
              networks := (networks lone_network_state)
                [0 := known_client_network],
              client_count := 1\<rparr>)"
    by (simp add: lone_network_state_def known_client_network_def
      parse_client_message_def zero_App_def zero_Client_def sep_to_pipe_def token_next_def
      token_init_def atoi_eval client_known_def arr_set_def arr_get_def count_linked_def Let_def
      numeral_eq_Suc)
  have d: "parse_client_message
        (lone_network_state
             \<lparr>clients := (clients lone_network_state)
                [0 := \<lparr>mac = ''AA:BB:CC:DD:EE:FF'', cl_rssi = - 33, ap_index = 0\<rparr>],
              networks := (networks lone_network_state)
                [0 := known_client_network],
              client_count := 1\<rparr>)
        ''0|AA:BB:CC:DD:EE:FF:99|-33'' =
       Inr (lone_network_state
             \<lparr>clients := (clients lone_network_state)
                [0 := \<lparr>mac = ''AA:BB:CC:DD:EE:FF'', cl_rssi = - 33, ap_index = 0\<rparr>,
                 1 := \<lparr>mac = ''AA:BB:CC:DD:EE:FF'', cl_rssi = - 33, ap_index = 0\<rparr>],
              networks := (networks lone_network_state)
                [0 := known_client_network
                        \<lparr>client_indices := 0 # 1 # replicate 14 (- 1), net_client_count := 2\<rparr>],
              client_count := 2\<rparr>)"
    by (simp add: lone_network_state_def known_client_network_def
      parse_client_message_def zero_App_def zero_Client_def sep_to_pipe_def token_next_def
      token_init_def atoi_eval client_known_def arr_set_def arr_get_def count_linked_def Let_def
      numeral_eq_Suc)
  from a b c d show ?thesis by (intro conjI)
qed

lemma lone_network_state_linked:
  "parse_client_message lone_network_state ''0|11:22:33:44:55:66|-60'' = Inr known_client_state"
  by (simp add: lone_network_state_def known_client_state_def known_client_network_def
      parse_client_message_def zero_App_def zero_Client_def sep_to_pipe_def token_next_def
      token_init_def atoi_eval client_known_def arr_set_def arr_get_def count_linked_def Let_def
      numeral_eq_Suc)

lemma lone_network_state_ok: "inventory_ok lone_network_state"
  by (simp add: inventory_ok_def lone_network_state_def known_client_network_def zero_App_def
      numeral_eq_Suc)

text \<open>
  Claim C6, amended, for the binary decoder. Take a body \<open>index sep MAC ...\<close> whose index
  and MAC fields are free of field-ending bytes and lie within the first 63 bytes. If the
  MAC field is the MAC of a client in the collection, decoding the body leaves the whole
  state unchanged: no Client is added and no index list is touched. And if the MAC field
  has at most 17 characters, the size of a stored MAC, decoding the body from a state whose
  counts lie inside the arrays returns a state in which either nothing changed, or one
  Client was added and the MAC is in the collection; decoding the same body again from
  that state changes nothing. So the same MAC decoded twice gives at most one Client and
  one link.
\<close>

theorem duplicate_client_ignored:
  assumes "is_sep s" and "\<forall>c\<in>set (idx @ m). \<not> is_sep c"
    and "tail = [] \<or> is_sep (hd tail)" and "length idx + 1 + length m \<le> 63"
  shows "(client_known app m \<longrightarrow> parse_client_message app (idx @ s # m @ tail) = Inr app)
       \<and> (inventory_ok app \<and> length m \<le> MAX_BSSID_LEN - 1 \<longrightarrow>
            (\<exists>app'. parse_client_message app (idx @ s # m @ tail) = Inr app'
               \<and> (app' = app \<or> client_count app' = client_count app + 1 \<and> client_known app' m)
               \<and> parse_client_message app' (idx @ s # m @ tail) = Inr app'))"
  using known_client_dropped [OF _ assms, of app] decoded_twice [OF assms, of app]
  by blast

theorem duplicate_client_ignored_witness:
  "is_sep (CHR ''|'') \<and> \<not> list_ex is_sep (''0'' @ ''11:22:33:44:55:66'')
   \<and> (''|-60'' = [] \<or> is_sep (hd ''|-60''))
   \<and> length ''0'' + 1 + length ''11:22:33:44:55:66'' \<le> 63
   \<and> client_known known_client_state ''11:22:33:44:55:66''
   \<and> parse_client_message known_client_state ''0|11:22:33:44:55:66|-60'' = Inr known_client_state
   \<and> inventory_ok lone_network_state \<and> length ''11:22:33:44:55:66'' \<le> MAX_BSSID_LEN - 1
   \<and> (\<exists>app'. parse_client_message lone_network_state ''0|11:22:33:44:55:66|-60'' = Inr app'
         \<and> client_count app' = client_count lone_network_state + 1
         \<and> client_known app' ''11:22:33:44:55:66''
         \<and> parse_client_message app' ''0|11:22:33:44:55:66|-60'' = Inr app')"
proof -
  have h: "is_sep (CHR ''|'')" "\<forall>c\<in>set (''0'' @ ''11:22:33:44:55:66''). \<not> is_sep c"
    "''|-60'' = [] \<or> is_sep (hd ''|-60'')"
    "length ''0'' + 1 + length ''11:22:33:44:55:66'' \<le> 63"
    by (simp_all add: is_sep_def)
  have k: "client_known known_client_state ''11:22:33:44:55:66''"
    by (simp add: client_known_def known_client_state_def zero_App_def numeral_eq_Suc)
  have l: "length ''11:22:33:44:55:66'' \<le> MAX_BSSID_LEN - 1" by simp
  have ne: "known_client_state \<noteq> lone_network_state"
  proof
    assume "known_client_state = lone_network_state"
    then have "client_count known_client_state = client_count lone_network_state" by simp
    then show False by (simp add: known_client_state_def lone_network_state_def zero_App_def)
  qed
  note t = duplicate_client_ignored [OF h]
  from t [of known_client_state] k
  have 1: "parse_client_message known_client_state ''0|11:22:33:44:55:66|-60'' = Inr known_client_state"
    by simp
  from t [of lone_network_state] lone_network_state_ok l
  obtain app' where
    a: "parse_client_message lone_network_state ''0|11:22:33:44:55:66|-60'' = Inr app'"
    and b: "app' = lone_network_state
            \<or> client_count app' = client_count lone_network_state + 1
              \<and> client_known app' ''11:22:33:44:55:66''"
    and c: "parse_client_message app' ''0|11:22:33:44:55:66|-60'' = Inr app'"
    by auto
  from a lone_network_state_linked have "app' = known_client_state" by simp
  with b ne have "client_count app' = client_count lone_network_state + 1"
    "client_known app' ''11:22:33:44:55:66''" by auto
  with a c have 2: "\<exists>app'. parse_client_message lone_network_state ''0|11:22:33:44:55:66|-60'' = Inr app'
         \<and> client_count app' = client_count lone_network_state + 1
         \<and> client_known app' ''11:22:33:44:55:66''
         \<and> parse_client_message app' ''0|11:22:33:44:55:66|-60'' = Inr app'"
    by blast
  have f: "\<not> list_ex is_sep (''0'' @ ''11:22:33:44:55:66'')" by (simp add: is_sep_def)
  from h(1) f h(3,4) k 1 lone_network_state_ok l 2 show ?thesis by (intro conjI)
qed

text \<open>
  The legacy branch rewrites every colon of the line to the field separator before it
  scans, as it does for a network line, so it reads the MAC of a client line as its first
  octet and stores that; the property above is about the binary decoder only.
\<close>

lemma legacy_client_mac_cut:
  "process_rx_line known_client_state ''CLIENT:3:11:22:33:44:55:66:-60'' =
       Inr (known_client_state
             \<lparr>clients := (clients known_client_state)
                [1 := \<lparr>mac = ''11'', cl_rssi = 22, ap_index = 0\<rparr>],
              networks := (networks known_client_state)
                [0 := known_client_network
                        \<lparr>client_indices := 0 # 1 # replicate 14 (- 1), net_client_count := 2\<rparr>],
              client_count := 2\<rparr>)"
  by (simp add: known_client_state_def known_client_network_def process_rx_line_def
      strncmp_eq_def process_client_line_def zero_App_def zero_Client_def colon_to_pipe_def
      token_next_def token_init_def atoi_eval client_known_def arr_set_def arr_get_def Let_def
      numeral_eq_Suc)

subsection \<open>Ranking pass\<close>






lemma take_past_pair:
  "length as + 1 < q \<Longrightarrow> take q (as @ u # v # bs) = as @ u # v # take (q - length as - 2) bs"
  by (simp add: take_Cons')































lemma wire_ranked_state_reached:
  "then_frame (then_frame (then_frame (Inr zero_App) ''n0|a|b|1|-40|2|5'') ''n1|a|b|1|-70'')
     ''c1|AA|-60''
   = Inr wire_ranked_state"
  by (simp add: then_frame_def process_rx_message_def cstr_def parse_network_message_def
      parse_network_fields_def parse_client_message_def sep_to_pipe_def token_next_def
      token_init_def atoi_eval client_known_def count_linked_def arr_get_def arr_set_def Let_def
      fresh_Network_def zero_Network_def zero_Client_def zero_App_def wire_ranked_state_def
      framed_network_def numeral_eq_Suc)






text \<open>
  Three inputs at the edges of the property above. \<open>overrun_state\<close>, reached by three
  binary frames, has a network sent with a client count of 17: the re-link scan for client
  0 goes through the 16 slots of that network's list and reads a seventeenth.
  \<open>unranked_state\<close>, reached by the decoders from the input shown, has a network sent with
  a count of -1, which the comparison places in neither category: the network without
  clients in slot 0 stays in front of the network with a client in slot 2. And its client
  1 was stored when the count of its network was at the cap, so it is in no list: the
  re-link pass does not reach it, and its index is the one it had before the sort.
\<close>

lemma overrun_state_reached:
  "then_frame (then_frame (then_frame (Inr zero_App) ''n0|a|b|1|-40|2|17'') ''n1|a|b|1|-70'')
     ''c1|AA|-60''
   = Inr overrun_state"
  by (simp add: then_frame_def process_rx_message_def cstr_def parse_network_message_def
      parse_network_fields_def parse_client_message_def sep_to_pipe_def token_next_def
      token_init_def atoi_eval client_known_def count_linked_def arr_get_def arr_set_def Let_def
      fresh_Network_def zero_Network_def zero_Client_def zero_App_def overrun_state_def
      framed_network_def numeral_eq_Suc)

lemma overrun_state_sorted: "sort_networks overrun_state = Inl IndexOutOfRange"
  by (simp add: sort_networks_def bubble_sort_def sort_pass_def swap_step_def
      network_should_swap_def relink_client_def relink_step_def arr_get_def arr_set_def
      overrun_state_def framed_network_def zero_App_def zero_Network_def zero_Client_def
      upt_rec_numeral numeral_eq_Suc)

lemma unranked_state_reached:
  "then_line
     (then_frame
        (then_line
           (then_line
              (then_line (Inr zero_App) ''AP:0:a:b:1:0:-10'')
              ''AP:1:a:b:1:0:-50:-1'')
           ''AP:2:a:b:1:0:-90:16'')
        ''c2|AA|-60'')
     ''CLIENT:2:BB:-70''
   = Inr unranked_state"
  by (simp add: then_line_def then_frame_def process_rx_line_def process_rx_message_def
      strncmp_eq_def cstr_def process_ap_line_def process_client_line_def parse_ap_fields_def
      parse_client_message_def colon_to_pipe_def sep_to_pipe_def token_next_def token_init_def
      atoi_eval client_known_def count_linked_def arr_get_def arr_set_def Let_def
      fresh_Network_def zero_Network_def zero_Client_def zero_App_def unranked_state_def
      unranked_network_def numeral_eq_Suc)

lemma unranked_state_sorted:
  "sort_networks unranked_state = Inr unranked_state
   \<and> net_client_count (networks unranked_state ! 0) = 0
   \<and> valid_entries (client_indices (networks unranked_state ! 0)) = 0
   \<and> 0 < net_client_count (networks unranked_state ! 2)
   \<and> 0 < valid_entries (client_indices (networks unranked_state ! 2))
   \<and> ap_index (clients unranked_state ! 1) = 2
   \<and> 1 \<notin> set (client_indices (networks unranked_state ! 2))"
proof -
  have "sort_networks unranked_state = Inr unranked_state"
    by (simp add: sort_networks_def bubble_sort_def sort_pass_def swap_step_def
      network_should_swap_def relink_client_def relink_step_def arr_get_def arr_set_def
      unranked_state_def unranked_network_def zero_App_def zero_Network_def zero_Client_def
      upt_rec_numeral numeral_eq_Suc)
  moreover have "net_client_count (networks unranked_state ! 0) = 0
   \<and> valid_entries (client_indices (networks unranked_state ! 0)) = 0
   \<and> 0 < net_client_count (networks unranked_state ! 2)
   \<and> 0 < valid_entries (client_indices (networks unranked_state ! 2))
   \<and> ap_index (clients unranked_state ! 1) = 2
   \<and> 1 \<notin> set (client_indices (networks unranked_state ! 2))"
    by (simp add: unranked_state_def unranked_network_def zero_App_def valid_entries_def
        numeral_eq_Suc)
  ultimately show ?thesis by simp
qed

end
